theory Spec2Isabelle
  imports Main "HOL-Library.Word" "HOL-Library.Sublist"
begin

section \<open>The review loader (load\_review.py)\<close>

text \<open>
  A shallow embedding of \<^verbatim>\<open>parse_review_files\<close> and \<^verbatim>\<open>save_category_data\<close>.
  Python \<^verbatim>\<open>str\<close> values are lists of code points, \<^verbatim>\<open>bytes\<close> are lists of 8-bit words.
  What the code obtains from libraries and from the outside world (the JSON parser, the
  HTTP responses, the outcome of a database insert, the local time zone behind
  \<^verbatim>\<open>start_date\<close>) is a field of the environment record; so are the module constants
  \<^verbatim>\<open>MAX_REVIEWS\<close> and \<^verbatim>\<open>MAX_ROWS_TO_READ\<close>, whose values in the source, 50000 and 300000,
  are those of \<open>demo_env\<close> below.

  \<^verbatim>\<open>parse_review_files\<close> is one function of 115 lines. Its loops and the stretches between
  them are the functions below, each with the lines it stands for; the variables that a
  loop updates are the fields of a record that it returns.

  Outside the model: a read of the response that raises (a broken connection, a corrupt
  archive), the conversions that \<^verbatim>\<open>pandas\<close> applies to the values of a \<^verbatim>\<open>DataFrame\<close>, and what is
  printed.
\<close>

subsection \<open>Text and bytes\<close>

type_synonym byte = "8 word"
type_synonym pystr = "nat list"

definition str :: "string \<Rightarrow> pystr" where
  "str s = map of_char s"

definition newline :: nat where
  "newline = 10"

text \<open>
  \<^verbatim>\<open>chunk.decode('utf-8', errors='ignore')\<close>: CPython's UTF-8 decoder, with every
  malformed part skipped. An invalid start byte skips one byte; an invalid continuation
  byte skips the bytes before it; a sequence cut off by the end of the input skips the
  rest of the input. Overlong forms, surrogates and code points above 10FFFF are
  malformed.
\<close>

definition IS_CONTINUATION_BYTE :: "byte \<Rightarrow> bool" where
  "IS_CONTINUATION_BYTE ch = (0x80 \<le> ch \<and> ch < 0xC0)"

fun utf8_decode :: "byte list \<Rightarrow> pystr" where
  "utf8_decode [] = []"
| "utf8_decode (ch # s) =
    (if ch < 0x80 then unat ch # utf8_decode s
     else if ch < 0xC2 then utf8_decode s
     else if ch < 0xE0 then
       (case s of
          [] \<Rightarrow> []
        | ch2 # s2 \<Rightarrow>
            if IS_CONTINUATION_BYTE ch2
            then (unat ch * 64 + unat ch2 - (0xC0 * 64 + 0x80)) # utf8_decode s2
            else utf8_decode s)
     else if ch < 0xF0 then
       (case s of
          [] \<Rightarrow> []
        | ch2 # s2 \<Rightarrow>
            if IS_CONTINUATION_BYTE ch2 then
              if (if ch2 < 0xA0 then ch = 0xE0 else ch = 0xED) then utf8_decode s
              else
                (case s2 of
                   [] \<Rightarrow> []
                 | ch3 # s3 \<Rightarrow>
                     if IS_CONTINUATION_BYTE ch3
                     then (unat ch * 4096 + unat ch2 * 64 + unat ch3
                             - (0xE0 * 4096 + 0x80 * 64 + 0x80)) # utf8_decode s3
                     else utf8_decode s2)
            else utf8_decode s)
     else if ch < 0xF5 then
       (case s of
          [] \<Rightarrow> []
        | ch2 # s2 \<Rightarrow>
            if IS_CONTINUATION_BYTE ch2 then
              if (if ch2 < 0x90 then ch = 0xF0 else ch = 0xF4) then utf8_decode s
              else
                (case s2 of
                   [] \<Rightarrow> []
                 | ch3 # s3 \<Rightarrow>
                     if IS_CONTINUATION_BYTE ch3 then
                       (case s3 of
                          [] \<Rightarrow> []
                        | ch4 # s4 \<Rightarrow>
                            if IS_CONTINUATION_BYTE ch4
                            then (unat ch * 262144 + unat ch2 * 4096 + unat ch3 * 64 + unat ch4
                                    - (0xF0 * 262144 + 0x80 * 4096 + 0x80 * 64 + 0x80))
                                 # utf8_decode s4
                            else utf8_decode s3)
                     else utf8_decode s2)
            else utf8_decode s)
     else utf8_decode s)"

text \<open>
  \<^verbatim>\<open>line.strip()\<close> is truthy when some character of the line is not whitespace
  (\<^verbatim>\<open>str.isspace\<close>).
\<close>

definition py_isspace :: "nat \<Rightarrow> bool" where
  "py_isspace c =
     (c \<in> set [9, 10, 11, 12, 13, 28, 29, 30, 31, 32, 133, 160, 5760, 8232, 8233, 8239, 8287, 12288]
      \<or> (8192 \<le> c \<and> c \<le> 8202))"

definition strip_truthy :: "pystr \<Rightarrow> bool" where
  "strip_truthy line = (\<not> list_all py_isspace line)"

text \<open>\<^verbatim>\<open>file_url.split("/")[-1].replace(".gz", "")\<close>\<close>

definition split_last :: "pystr \<Rightarrow> pystr" where
  "split_last url = rev (takeWhile (\<lambda>c. c \<noteq> 47) (rev url))"

fun replace_gz :: "pystr \<Rightarrow> pystr" where
  "replace_gz [] = []"
| "replace_gz (c # cs) =
    (if c = 46 then
       (case cs of
          g # z # rest \<Rightarrow> if g = 103 \<and> z = 122 then replace_gz rest else c # replace_gz cs
        | _ \<Rightarrow> c # replace_gz cs)
     else c # replace_gz cs)"

definition filename_of :: "pystr \<Rightarrow> pystr" where
  "filename_of file_url = replace_gz (split_last file_url)"

subsection \<open>Records, errors and the environment\<close>

text \<open>
  The object that \<^verbatim>\<open>json.loads\<close> returns is read only through \<^verbatim>\<open>review.get\<close> on ten
  keys. A key that is absent is \<open>None\<close>, so that each default of the source is written
  out. User identifiers are strings or \<^verbatim>\<open>None\<close> (the column \<^verbatim>\<open>user_id\<close> of the store), and
  timestamps are integers (milliseconds); a timestamp that is present and not a number
  makes the comparison with \<^verbatim>\<open>start_date\<close> raise. Floating-point timestamps are outside the
  model. The other fields are carried as JSON values.
\<close>

datatype json = JNull | JBool bool | JInt int | JStr pystr
  | JArray "json list" | JObject "(pystr \<times> json) list"

datatype timestamp_field = Missing | Number int | NotANumber

record review =
  j_timestamp :: timestamp_field
  j_user_id :: "pystr option"
  j_parent_asin :: "json option"
  j_asin :: "json option"
  j_rating :: "json option"
  j_title :: "json option"
  j_text :: "json option"
  j_images :: "json option"
  j_verified_purchase :: "json option"
  j_helpful_vote :: "json option"

datatype loads_result = JSONDecodeError | NotADict | Dict review

datatype error = AttributeError | TypeError | RequestException | Psycopg2Error | OtherException

record review_data =
  rd_user_id :: "pystr option"
  rd_parent_asin :: json
  rd_asin :: json
  rd_rating :: json
  rd_title :: json
  rd_text :: json
  rd_images :: json
  rd_timestamp :: int
  rd_verified_purchase :: json
  rd_helpful_votes :: json
  rd_filename :: pystr

record row =
  col_user_id :: "pystr option"
  col_parent_asin :: json
  col_asin :: json
  col_rating :: json
  col_title :: json
  col_review_text :: json
  col_images :: "pystr option"
  col_review_timestamp :: int
  col_verified_purchase :: json
  col_helpful_vote :: json
  col_filename :: pystr

text \<open>
  The store: the rows of \<^verbatim>\<open>review_data\<close> that are committed, and the rows written by the
  open transaction. The environment decides how \<^verbatim>\<open>executemany\<close> followed by \<^verbatim>\<open>commit\<close> ends:
  both succeed; \<^verbatim>\<open>executemany\<close> raises after some rows; or \<^verbatim>\<open>commit\<close> raises. What is raised is
  \<^verbatim>\<open>psycopg2.Error\<close>, which line 127 catches, or an exception of another class (a
  \<^verbatim>\<open>ValueError\<close> for a NUL character in a string, say), which it does not. The environment
  also decides whether the \<^verbatim>\<open>rollback\<close> of line 129 raises. Each of the two queries either
  returns its rows or raises \<^verbatim>\<open>psycopg2.Error\<close>, which the code turns into an empty list.
\<close>

record database =
  committed :: "row list"
  pending :: "row list"

datatype insert_outcome = Commits | ExecuteRaises nat | CommitRaises
  | ExecuteRaisesOther nat | CommitRaisesOther

record env =
  MAX_REVIEWS :: nat
  MAX_ROWS_TO_READ :: nat
  start_date :: int
  json_loads :: "pystr \<Rightarrow> loads_result"
  json_dumps :: "json \<Rightarrow> pystr"
  py_str :: "json \<Rightarrow> pystr"
  requests_get :: "pystr \<Rightarrow> byte list list option"
  insert_outcome :: "row list \<Rightarrow> row list \<Rightarrow> insert_outcome"
  rollback_raises :: "row list \<Rightarrow> row list \<Rightarrow> bool"
  users_query_raises :: bool
  completed_query_raises :: bool

definition get :: "json option \<Rightarrow> json" where
  "get field = (case field of None \<Rightarrow> JNull | Some v \<Rightarrow> v)"

definition get_default :: "json option \<Rightarrow> json \<Rightarrow> json" where
  "get_default field d = (case field of None \<Rightarrow> d | Some v \<Rightarrow> v)"

subsection \<open>Scanning one category (lines 151 to 211)\<close>

text \<open>
  The variables of one category's scan. \<^verbatim>\<open>file_users\<close> is a Python set; it is kept as a
  list without duplicates, in the order of insertion.
\<close>

record scan =
  priority_data :: "review_data list"
  other_data :: "review_data list"
  file_users :: "pystr option list"
  rows_read :: nat
  lines_processed :: nat

definition scan_init :: scan where
  "scan_init = \<lparr>priority_data = [], other_data = [], file_users = [],
                 rows_read = 0, lines_processed = 0\<rparr>"

definition set_add :: "'a \<Rightarrow> 'a list \<Rightarrow> 'a list" where
  "set_add x xs = (if x \<in> set xs then xs else xs @ [x])"

definition make_review_data :: "review \<Rightarrow> int \<Rightarrow> pystr \<Rightarrow> review_data" where
  "make_review_data review ts filename =
     \<lparr>rd_user_id = j_user_id review,
      rd_parent_asin = get (j_parent_asin review),
      rd_asin = get (j_asin review),
      rd_rating = get (j_rating review),
      rd_title = get (j_title review),
      rd_text = get (j_text review),
      rd_images = get (j_images review),
      rd_timestamp = ts,
      rd_verified_purchase = get (j_verified_purchase review),
      rd_helpful_votes = get_default (j_helpful_vote review) (JInt 0),
      rd_filename = filename\<rparr>"

text \<open>Lines 179 to 203: a parsed review with its timestamp.\<close>

definition accept :: "env \<Rightarrow> pystr option list \<Rightarrow> pystr \<Rightarrow> review \<Rightarrow> int \<Rightarrow> scan \<Rightarrow> scan" where
  "accept e global_users filename review ts s =
     (if ts \<ge> start_date e then
        (if j_user_id review \<in> set global_users
         then s\<lparr>rows_read := rows_read s + 1,
                priority_data := priority_data s @ [make_review_data review ts filename],
                file_users := set_add (j_user_id review) (file_users s)\<rparr>
         else s\<lparr>rows_read := rows_read s + 1,
                other_data := other_data s @ [make_review_data review ts filename]\<rparr>)
      else s)"

text \<open>Lines 172 to 206: one line split off the buffer.\<close>

definition process_line ::
  "env \<Rightarrow> pystr option list \<Rightarrow> pystr \<Rightarrow> pystr \<Rightarrow> scan \<Rightarrow> error + scan" where
  "process_line e global_users filename line s =
     (if strip_truthy line then
        (case json_loads e line of
           JSONDecodeError \<Rightarrow> Inr (s\<lparr>lines_processed := lines_processed s + 1\<rparr>)
         | NotADict \<Rightarrow> Inl AttributeError
         | Dict review \<Rightarrow>
             (case j_timestamp review of
                Missing \<Rightarrow>
                  Inr (accept e global_users filename review 0
                         (s\<lparr>lines_processed := lines_processed s + 1\<rparr>))
              | Number ts \<Rightarrow>
                  Inr (accept e global_users filename review ts
                         (s\<lparr>lines_processed := lines_processed s + 1\<rparr>))
              | NotANumber \<Rightarrow> Inl TypeError))
      else Inr s)"

text \<open>Lines 169 and 170: the inner loop, which splits the buffer at its first newline.\<close>

function while_lines ::
  "env \<Rightarrow> pystr option list \<Rightarrow> pystr \<Rightarrow> pystr \<Rightarrow> scan \<Rightarrow> error + (pystr \<times> scan)" where
  "while_lines e global_users filename buffer s =
     (if newline \<in> set buffer \<and> rows_read s < MAX_ROWS_TO_READ e then
        (case process_line e global_users filename (takeWhile (\<lambda>c. c \<noteq> newline) buffer) s of
           Inl err \<Rightarrow> Inl err
         | Inr s' \<Rightarrow>
             while_lines e global_users filename (tl (dropWhile (\<lambda>c. c \<noteq> newline) buffer)) s')
      else Inr (buffer, s))"
  by pat_completeness auto
termination
proof (relation "measure (\<lambda>(e, global_users, filename, buffer, s). length buffer)")
  show "wf (measure (\<lambda>(e, global_users, filename, buffer, s). length buffer))"
    by simp
next
  fix e :: env and global_users :: "pystr option list" and filename buffer :: pystr
    and s x2 :: scan
  assume "newline \<in> set buffer \<and> rows_read s < MAX_ROWS_TO_READ e"
  then have "dropWhile (\<lambda>c. c \<noteq> newline) buffer \<noteq> []"
    by (simp add: dropWhile_eq_Nil_conv)
  then have "length (tl (dropWhile (\<lambda>c. c \<noteq> newline) buffer))
               < length (dropWhile (\<lambda>c. c \<noteq> newline) buffer)"
    by (cases "dropWhile (\<lambda>c. c \<noteq> newline) buffer") simp_all
  also have "\<dots> \<le> length buffer"
    by (rule length_dropWhile_le)
  finally show "((e, global_users, filename, tl (dropWhile (\<lambda>c. c \<noteq> newline) buffer), x2),
                 (e, global_users, filename, buffer, s))
                \<in> measure (\<lambda>(e, global_users, filename, buffer, s). length buffer)"
    by simp
qed

declare while_lines.simps [simp del]

text \<open>
  Line 163: \<^verbatim>\<open>iter(lambda: decompressor.read(8192), b'')\<close> yields the chunks before the
  first empty one. Lines 163 to 170: the loop over them.
\<close>

definition iter_sentinel :: "byte list list \<Rightarrow> byte list list" where
  "iter_sentinel reads = takeWhile (\<lambda>chunk. chunk \<noteq> []) reads"

fun for_chunks ::
  "env \<Rightarrow> pystr option list \<Rightarrow> pystr \<Rightarrow> byte list list \<Rightarrow> pystr \<Rightarrow> scan
     \<Rightarrow> error + (pystr \<times> scan)" where
  "for_chunks e global_users filename [] buffer s = Inr (buffer, s)"
| "for_chunks e global_users filename (chunk # chunks) buffer s =
     (if rows_read s \<ge> MAX_ROWS_TO_READ e
      then Inr (buffer, s)
      else
        (case while_lines e global_users filename (buffer @ utf8_decode chunk) s of
           Inl err \<Rightarrow> Inl err
         | Inr (buffer', s') \<Rightarrow> for_chunks e global_users filename chunks buffer' s'))"

definition scan_category ::
  "env \<Rightarrow> pystr option list \<Rightarrow> pystr \<Rightarrow> byte list list \<Rightarrow> error + (pystr \<times> scan)" where
  "scan_category e global_users filename reads =
     for_chunks e global_users filename (iter_sentinel reads) [] scan_init"

subsection \<open>The kept set (lines 213 to 222)\<close>

fun for_other ::
  "env \<Rightarrow> review_data list \<Rightarrow> pystr option list \<Rightarrow> review_data list
     \<Rightarrow> review_data list \<times> pystr option list" where
  "for_other e final_data users [] = (final_data, users)"
| "for_other e final_data users (r # rs) =
     (if length final_data \<ge> MAX_REVIEWS e then (final_data, users)
      else for_other e (final_data @ [r]) (set_add (rd_user_id r) users) rs)"

definition finalize :: "env \<Rightarrow> scan \<Rightarrow> review_data list \<times> pystr option list" where
  "finalize e s =
     (if int (MAX_REVIEWS e) - int (length (priority_data s)) > 0
      then for_other e (priority_data s) (file_users s) (other_data s)
      else (priority_data s, file_users s))"

text \<open>A category's kept set and the users of its file, from the ledger and the reads.\<close>

definition sample_category ::
  "env \<Rightarrow> pystr option list \<Rightarrow> pystr \<Rightarrow> byte list list
     \<Rightarrow> error + (review_data list \<times> pystr option list)" where
  "sample_category e global_users filename reads =
     (case scan_category e global_users filename reads of
        Inl err \<Rightarrow> Inl err
      | Inr (buffer, s) \<Rightarrow> Inr (finalize e s))"

subsection \<open>The store (lines 67 to 129)\<close>

definition get_existing_users :: "env \<Rightarrow> database \<Rightarrow> pystr option list" where
  "get_existing_users e d =
     (if users_query_raises e then []
      else remdups (map col_user_id (committed d @ pending d)))"

definition get_completed_categories :: "env \<Rightarrow> database \<Rightarrow> pystr list" where
  "get_completed_categories e d =
     (if completed_query_raises e then []
      else remdups (map col_filename (committed d @ pending d)))"

definition images_json :: "env \<Rightarrow> json \<Rightarrow> pystr option" where
  "images_json e images_value =
     (case images_value of
        JArray xs \<Rightarrow> Some (json_dumps e images_value)
      | JObject kvs \<Rightarrow> Some (json_dumps e images_value)
      | JNull \<Rightarrow> None
      | _ \<Rightarrow> Some (py_str e images_value))"

definition data_tuple :: "env \<Rightarrow> review_data \<Rightarrow> row" where
  "data_tuple e r =
     \<lparr>col_user_id = rd_user_id r,
      col_parent_asin = rd_parent_asin r,
      col_asin = rd_asin r,
      col_rating = rd_rating r,
      col_title = rd_title r,
      col_review_text = rd_text r,
      col_images = images_json e (rd_images r),
      col_review_timestamp = rd_timestamp r,
      col_verified_purchase = rd_verified_purchase r,
      col_helpful_vote = rd_helpful_votes r,
      col_filename = rd_filename r\<rparr>"

definition executemany :: "row list \<Rightarrow> database \<Rightarrow> database" where
  "executemany rows d = d\<lparr>pending := pending d @ rows\<rparr>"

definition commit :: "database \<Rightarrow> database" where
  "commit d = \<lparr>committed = committed d @ pending d, pending = []\<rparr>"

definition rollback :: "database \<Rightarrow> database" where
  "rollback d = d\<lparr>pending := []\<rparr>"

text \<open>
  Lines 127 to 129: \<^verbatim>\<open>psycopg2.Error\<close> is caught and the transaction rolled back; a
  \<^verbatim>\<open>rollback\<close> that raises leaves the transaction as it is, and its exception leaves
  \<^verbatim>\<open>save_category_data\<close>.
\<close>

definition except_psycopg2_Error ::
  "env \<Rightarrow> row list \<Rightarrow> row list \<Rightarrow> database \<Rightarrow> database \<times> error option" where
  "except_psycopg2_Error e rows data_tuples d =
     (if rollback_raises e rows data_tuples then (d, Some Psycopg2Error)
      else (rollback d, None))"

text \<open>
  Lines 85 to 129. The result is the store and the exception that leaves the function,
  if one does.
\<close>

definition save_category_data ::
  "env \<Rightarrow> review_data list \<Rightarrow> database \<Rightarrow> database \<times> error option" where
  "save_category_data e df d =
     (case insert_outcome e (committed d) (map (data_tuple e) df) of
        Commits \<Rightarrow> (commit (executemany (map (data_tuple e) df) d), None)
      | ExecuteRaises k \<Rightarrow>
          except_psycopg2_Error e (committed d) (map (data_tuple e) df)
            (executemany (take k (map (data_tuple e) df)) d)
      | CommitRaises \<Rightarrow>
          except_psycopg2_Error e (committed d) (map (data_tuple e) df)
            (executemany (map (data_tuple e) df) d)
      | ExecuteRaisesOther k \<Rightarrow>
          (executemany (take k (map (data_tuple e) df)) d, Some OtherException)
      | CommitRaisesOther \<Rightarrow> (executemany (map (data_tuple e) df) d, Some OtherException))"

text \<open>
  Lines 291 to 294: \<^verbatim>\<open>main\<close> closes the connection when \<^verbatim>\<open>parse_review_files\<close> has returned
  or raised. What the open transaction wrote is discarded; the next run sees the
  committed rows.
\<close>

definition connection_close :: "database \<Rightarrow> database" where
  "connection_close d = \<lparr>committed = committed d, pending = []\<rparr>"

subsection \<open>The loop over the categories (lines 132 to 246)\<close>

text \<open>
  \<open>locals\<close> are the variables of \<^verbatim>\<open>parse_review_files\<close> that live across categories;
  an exception loses them. \<open>world\<close> is what an exception leaves behind: the store, and
  the URLs that were passed to \<^verbatim>\<open>requests.get\<close>, in order.
\<close>

record locals =
  global_users :: "pystr option list"
  completed_filenames :: "pystr list"
  user_product_dict :: "pystr \<rightharpoonup> json set"
  all_dfs :: "review_data list list"

record world =
  db :: database
  requested :: "pystr list"

fun hashable :: "json \<Rightarrow> bool" where
  "hashable (JArray xs) = False"
| "hashable (JObject kvs) = False"
| "hashable v = True"

definition process_category ::
  "env \<Rightarrow> pystr \<Rightarrow> world \<Rightarrow> locals \<Rightarrow> world \<times> (error + locals)" where
  "process_category e file_url w l =
     (if filename_of file_url \<in> set (completed_filenames l) then (w, Inr l)
      else
        (case requests_get e file_url of
           None \<Rightarrow> (w\<lparr>requested := requested w @ [file_url]\<rparr>, Inl RequestException)
         | Some reads \<Rightarrow>
             (case sample_category e (global_users l) (filename_of file_url) reads of
                Inl err \<Rightarrow> (w\<lparr>requested := requested w @ [file_url]\<rparr>, Inl err)
              | Inr (final_data, users) \<Rightarrow>
                  if list_all (\<lambda>r. hashable (rd_parent_asin r)) final_data then
                    (case (if final_data \<noteq> [] then save_category_data e final_data (db w)
                           else (db w, None)) of
                       (d, Some err) \<Rightarrow>
                         (\<lparr>db = d, requested = requested w @ [file_url]\<rparr>, Inl err)
                     | (d, None) \<Rightarrow>
                         (\<lparr>db = d, requested = requested w @ [file_url]\<rparr>,
                          Inr (l\<lparr>global_users :=
                                   global_users l
                                   @ filter (\<lambda>user. user \<notin> set (global_users l)) users,
                                 user_product_dict :=
                                   (user_product_dict l)
                                     (filename_of file_url
                                        \<mapsto> set (map rd_parent_asin final_data)),
                                 all_dfs := all_dfs l @ [final_data]\<rparr>)))
                  else (w\<lparr>requested := requested w @ [file_url]\<rparr>, Inl TypeError))))"

fun for_files :: "env \<Rightarrow> pystr list \<Rightarrow> world \<Rightarrow> locals \<Rightarrow> world \<times> (error + locals)" where
  "for_files e [] w l = (w, Inr l)"
| "for_files e (file_url # review_files) w l =
     (case process_category e file_url w l of
        (w', Inl err) \<Rightarrow> (w', Inl err)
      | (w', Inr l') \<Rightarrow> for_files e review_files w' l')"

definition parse_review_files ::
  "env \<Rightarrow> pystr list \<Rightarrow> database \<Rightarrow> world \<times> (error + locals)" where
  "parse_review_files e review_files d =
     for_files e review_files \<lparr>db = d, requested = []\<rparr>
       \<lparr>global_users = get_existing_users e d,
        completed_filenames = get_completed_categories e d,
        user_product_dict = Map.empty,
        all_dfs = []\<rparr>"

definition returned :: "locals \<Rightarrow> review_data list \<times> (pystr \<rightharpoonup> json set)" where
  "returned l = (concat (all_dfs l), user_product_dict l)"

subsection \<open>Concrete inputs\<close>

text \<open>
  The inputs at which the theorems below are evaluated. \<open>demo_loads\<close> returns what
  \<^verbatim>\<open>json.loads\<close> returns on the lines used here, with or without spaces around them; on
  every other line it reports a decoding error.
\<close>

definition encode_ascii :: "pystr \<Rightarrow> byte list" where
  "encode_ascii s = map of_nat s"

definition strip_spaces :: "pystr \<Rightarrow> pystr" where
  "strip_spaces s = rev (dropWhile (\<lambda>c. c = 32) (rev (dropWhile (\<lambda>c. c = 32) s)))"

definition recent_review :: "pystr \<Rightarrow> review" where
  "recent_review user =
     \<lparr>j_timestamp = Number 1700000000000, j_user_id = Some user,
      j_parent_asin = None, j_asin = None, j_rating = None, j_title = None, j_text = None,
      j_images = None, j_verified_purchase = None, j_helpful_vote = None\<rparr>"

definition old_review :: "pystr \<Rightarrow> review" where
  "old_review user =
     \<lparr>j_timestamp = Number 1000000000000, j_user_id = Some user,
      j_parent_asin = None, j_asin = None, j_rating = None, j_title = None, j_text = None,
      j_images = None, j_verified_purchase = None, j_helpful_vote = None\<rparr>"

definition line_U1 :: pystr where
  \<open>line_U1 = str ''{"user_id":"U1","timestamp":1700000000000}''\<close>

definition line_U2_old :: pystr where
  \<open>line_U2_old = str ''{"user_id":"U2","timestamp":1000000000000}''\<close>

definition line_U3 :: pystr where
  \<open>line_U3 = str ''{"user_id":"U3","timestamp":1700000000000}''\<close>

definition line_not_json :: pystr where
  "line_not_json = str ''not json''"

definition demo_loads :: "pystr \<Rightarrow> loads_result" where
  "demo_loads line =
     (if strip_spaces line = line_U1 then Dict (recent_review (str ''U1''))
      else if strip_spaces line = line_U2_old then Dict (old_review (str ''U2''))
      else if strip_spaces line = line_U3 then Dict (recent_review (str ''U3''))
      else JSONDecodeError)"

definition demo_reads :: "byte list list" where
  "demo_reads =
     [encode_ascii (line_U1 @ [newline] @ take 4 line_not_json),
      encode_ascii (drop 4 line_not_json @ [newline] @ line_U2_old @ [newline]
                      @ line_U3 @ [newline])]"

definition demo_env :: env where
  "demo_env =
     \<lparr>MAX_REVIEWS = 50000, MAX_ROWS_TO_READ = 300000, start_date = 1577836800000,
      json_loads = demo_loads, json_dumps = (\<lambda>v. []), py_str = (\<lambda>v. []),
      requests_get = (\<lambda>url. Some demo_reads),
      insert_outcome = (\<lambda>rows batch. Commits),
      rollback_raises = (\<lambda>rows batch. False),
      users_query_raises = False, completed_query_raises = False\<rparr>"

definition demo_scan :: scan where
  "demo_scan =
     \<lparr>priority_data =
        [make_review_data (recent_review (str ''U1'')) 1700000000000 (str ''Books.jsonl'')],
      other_data =
        [make_review_data (recent_review (str ''U3'')) 1700000000000 (str ''Books.jsonl'')],
      file_users = [Some (str ''U1'')],
      rows_read = 2, lines_processed = 4\<rparr>"

definition demo_kept :: "review_data list" where
  "demo_kept =
     [make_review_data (recent_review (str ''U1'')) 1700000000000 (str ''Books.jsonl''),
      make_review_data (recent_review (str ''U3'')) 1700000000000 (str ''Books.jsonl'')]"

text \<open>
  A chunk of 8192 bytes that holds one line: the first line above, followed by spaces
  and a newline. \<open>old_padded_chunk\<close> holds the line that the cutoff rejects.
\<close>

definition padded_chunk :: "byte list" where
  "padded_chunk = encode_ascii (line_U1 @ replicate 8149 32 @ [newline])"


text \<open>
  A run over two categories. The store holds one row of the first, written by an
  earlier run for the user of the first line above; the second is read from
  \<open>demo_reads\<close>.
\<close>

definition books_url :: pystr where
  "books_url = str ''https://example.org/review_categories/Books.jsonl.gz''"

definition toys_url :: pystr where
  "toys_url = str ''https://example.org/review_categories/Toys.jsonl.gz''"

definition toys_row :: row where
  "toys_row =
     \<lparr>col_user_id = Some (str ''U1''), col_parent_asin = JNull, col_asin = JNull,
      col_rating = JNull, col_title = JNull, col_review_text = JNull, col_images = None,
      col_review_timestamp = 1600000000000, col_verified_purchase = JNull,
      col_helpful_vote = JInt 0, col_filename = str ''Toys.jsonl''\<rparr>"

definition demo_db :: database where
  "demo_db = \<lparr>committed = [toys_row], pending = []\<rparr>"

definition demo_locals :: locals where
  "demo_locals =
     \<lparr>global_users = [Some (str ''U1'')], completed_filenames = [str ''Toys.jsonl''],
      user_product_dict = Map.empty, all_dfs = []\<rparr>"

definition demo_locals_after :: locals where
  "demo_locals_after =
     \<lparr>global_users = [Some (str ''U1''), Some (str ''U3'')],
      completed_filenames = [str ''Toys.jsonl''],
      user_product_dict = [str ''Books.jsonl'' \<mapsto> set (map rd_parent_asin demo_kept)],
      all_dfs = [demo_kept]\<rparr>"

definition demo_world_after :: world where
  "demo_world_after =
     \<lparr>db = \<lparr>committed = toys_row # map (data_tuple demo_env) demo_kept, pending = []\<rparr>,
      requested = [books_url]\<rparr>"

text \<open>
  The same environment with an insert that raises \<^verbatim>\<open>psycopg2.Error\<close> after one row, with an
  insert that raises an exception of another class after one row, and with a category
  whose only line is rejected by the cutoff.
\<close>

definition failing_env :: env where
  "failing_env = demo_env\<lparr>insert_outcome := (\<lambda>rows batch. ExecuteRaises 1)\<rparr>"

definition uncaught_env :: env where
  "uncaught_env = demo_env\<lparr>insert_outcome := (\<lambda>rows batch. ExecuteRaisesOther 1)\<rparr>"

definition uncaught_world_after :: world where
  "uncaught_world_after =
     \<lparr>db = \<lparr>committed = [], pending = [data_tuple uncaught_env (hd demo_kept)]\<rparr>,
      requested = [books_url]\<rparr>"

definition old_env :: env where
  "old_env = demo_env\<lparr>requests_get := (\<lambda>url. Some [encode_ascii (line_U2_old @ [newline])])\<rparr>"

definition empty_db :: database where
  "empty_db = \<lparr>committed = [], pending = []\<rparr>"

definition old_locals_after :: locals where
  "old_locals_after =
     \<lparr>global_users = [], completed_filenames = [],
      user_product_dict = [str ''Books.jsonl'' \<mapsto> {}], all_dfs = [[]]\<rparr>"

definition old_scan :: scan where
  "old_scan = \<lparr>priority_data = [], other_data = [], file_users = [],
                rows_read = 0, lines_processed = 1\<rparr>"

text \<open>A chunk that ends with a newline, and the bytes of a line without one.\<close>

definition terminated_chunk :: "byte list" where
  "terminated_chunk = encode_ascii (line_U1 @ [newline])"

definition tail_bytes :: "byte list" where
  "tail_bytes = encode_ascii line_U3"

text \<open>
  A stream of 8222 bytes: 8179 spaces and a record whose user identifier is the letter
  e with an acute accent, the two bytes C3 A9 at offsets 8191 and 8192. \<open>accent_reads\<close> is
  the stream as \<^verbatim>\<open>decompressor.read(8192)\<close> returns it; \<open>accent_reads_aligned\<close> is the same
  stream cut one byte earlier. \<open>accent_loads\<close> returns what \<^verbatim>\<open>json.loads\<close> returns on the
  record, and on the record with an empty user identifier.
\<close>

definition line_accent :: pystr where
  \<open>line_accent = str ''{"user_id":"'' @ [233] @ str ''","timestamp":1700000000000}''\<close>

definition line_no_user :: pystr where
  \<open>line_no_user = str ''{"user_id":"","timestamp":1700000000000}''\<close>

definition accent_loads :: "pystr \<Rightarrow> loads_result" where
  "accent_loads line =
     (if strip_spaces line = line_accent then Dict (recent_review [233])
      else if strip_spaces line = line_no_user then Dict (recent_review [])
      else JSONDecodeError)"

definition accent_env :: env where
  "accent_env = demo_env\<lparr>json_loads := accent_loads\<rparr>"

definition accent_head :: "byte list" where
  \<open>accent_head = encode_ascii (replicate 8179 32 @ str ''{"user_id":"'')\<close>

definition accent_rest :: "byte list" where
  \<open>accent_rest = encode_ascii (str ''","timestamp":1700000000000}'' @ [newline])\<close>

definition accent_reads :: "byte list list" where
  "accent_reads = [accent_head @ [0xC3], 0xA9 # accent_rest]"

definition accent_reads_aligned :: "byte list list" where
  "accent_reads_aligned = [accent_head, 0xC3 # 0xA9 # accent_rest]"


subsection \<open>Notions used in the statements and in the proofs\<close>

text \<open>What holds of the variables of a scan after every line.\<close>

definition scan_inv :: "env \<Rightarrow> pystr option list \<Rightarrow> pystr \<Rightarrow> scan \<Rightarrow> bool" where
  "scan_inv e ledger filename s =
     (length (priority_data s) + length (other_data s) = rows_read s
      \<and> set (file_users s) = rd_user_id ` set (priority_data s)
      \<and> list_all (\<lambda>r. rd_user_id r \<in> set ledger) (priority_data s)
      \<and> list_all (\<lambda>r. rd_user_id r \<notin> set ledger) (other_data s)
      \<and> list_all (\<lambda>r. rd_filename r = filename \<and> rd_timestamp r \<ge> start_date e)
            (priority_data s @ other_data s))"

text \<open>
  The insert raised \<^verbatim>\<open>psycopg2.Error\<close> and the rollback did not raise.
\<close>

definition rolled_back :: "env \<Rightarrow> review_data list \<Rightarrow> database \<Rightarrow> bool" where
  "rolled_back e df d =
     (case insert_outcome e (committed d) (map (data_tuple e) df) of
        ExecuteRaises k \<Rightarrow> \<not> rollback_raises e (committed d) (map (data_tuple e) df)
      | CommitRaises \<Rightarrow> \<not> rollback_raises e (committed d) (map (data_tuple e) df)
      | _ \<Rightarrow> False)"


subsection \<open>The filter and the candidates, in the words of the specification\<close>

text \<open>
  The lines of a text that a newline ends, in order (section 4.1: complete text lines;
  what follows the last newline is not one of them).
\<close>

function complete_lines :: "pystr \<Rightarrow> pystr list" where
  "complete_lines buf =
     (if newline \<in> set buf
      then takeWhile (\<lambda>c. c \<noteq> newline) buf
           # complete_lines (tl (dropWhile (\<lambda>c. c \<noteq> newline) buf))
      else [])"
  by pat_completeness auto
termination
proof (relation "measure length")
  show "wf (measure length)"
    by simp
next
  fix buf :: pystr
  assume "newline \<in> set buf"
  then have "dropWhile (\<lambda>c. c \<noteq> newline) buf \<noteq> []"
    by (simp add: dropWhile_eq_Nil_conv)
  then have "length (tl (dropWhile (\<lambda>c. c \<noteq> newline) buf))
               < length (dropWhile (\<lambda>c. c \<noteq> newline) buf)"
    by (cases "dropWhile (\<lambda>c. c \<noteq> newline) buf") simp_all
  also have "\<dots> \<le> length buf"
    by (rule length_dropWhile_le)
  finally show "(tl (dropWhile (\<lambda>c. c \<noteq> newline) buf), buf) \<in> measure length"
    by simp
qed

declare complete_lines.simps [simp del]

text \<open>
  Section 4.2, the Record Filter/Mapper: a line that is not blank, parses as an object
  and has a timestamp (zero when absent) greater than or equal to the cutoff gives a
  candidate, the record with the fields of the object and the filename of the category;
  any other line gives nothing. It is written without the functions of the scan.
\<close>

definition spec_filter_mapper :: "env \<Rightarrow> pystr \<Rightarrow> pystr \<Rightarrow> review_data option" where
  "spec_filter_mapper e filename line =
     (if strip_truthy line then
        (case json_loads e line of
           Dict review \<Rightarrow>
             (case j_timestamp review of
                Missing \<Rightarrow>
                  if start_date e \<le> 0 then Some (make_review_data review 0 filename) else None
              | Number ts \<Rightarrow>
                  if start_date e \<le> ts then Some (make_review_data review ts filename) else None
              | NotANumber \<Rightarrow> None)
         | _ \<Rightarrow> None)
      else None)"

text \<open>
  Section 4.3: the candidates of a category, in arrival order, are what the filter emits
  on the complete lines of the text decoded from its chunks, up to the scan budget.
\<close>

definition spec_candidates :: "env \<Rightarrow> pystr \<Rightarrow> byte list list \<Rightarrow> review_data list" where
  "spec_candidates e filename reads =
     take (MAX_ROWS_TO_READ e)
       (List.map_filter (spec_filter_mapper e filename)
          (complete_lines (concat (map utf8_decode (iter_sentinel reads)))))"

section \<open>Properties\<close>

lemmas demo_defs = encode_ascii_def strip_spaces_def recent_review_def old_review_def line_U1_def
  line_U2_old_def line_U3_def line_not_json_def demo_loads_def demo_reads_def demo_env_def str_def
  newline_def demo_kept_def demo_scan_def

lemmas scan_defs = sample_category_def scan_category_def iter_sentinel_def scan_init_def
  while_lines.simps process_line_def strip_truthy_def py_isspace_def accept_def finalize_def
  set_add_def IS_CONTINUATION_BYTE_def

subsection \<open>Invariants of the scan\<close>

lemma process_line_cases:
  assumes "process_line e G f line s = Inr s'"
  obtains "s' = s"
  | "s' = s\<lparr>lines_processed := lines_processed s + 1\<rparr>"
  | rv ts where "s' = accept e G f rv ts (s\<lparr>lines_processed := lines_processed s + 1\<rparr>)"
  using assms
  by (auto simp: process_line_def split: if_splits loads_result.splits timestamp_field.splits)

lemma while_lines_invariant:
  assumes "while_lines e G f buffer s = Inr (buffer', s')" and "I s"
    and "\<forall>line s s'. I s \<longrightarrow> process_line e G f line s = Inr s' \<longrightarrow> I s'"
  shows "I s'"
  using assms
proof (induction e G f buffer s rule: while_lines.induct)
  case (1 e G f buffer s)
  show ?case
  proof (cases "newline \<in> set buffer \<and> rows_read s < MAX_ROWS_TO_READ e")
    case False
    with "1.prems" show ?thesis
      by (simp add: while_lines.simps [of e G f buffer s])
  next
    case True
    show ?thesis
    proof (cases "process_line e G f (takeWhile (\<lambda>c. c \<noteq> newline) buffer) s")
      case (Inl err)
      with True "1.prems" show ?thesis
        by (simp add: while_lines.simps [of e G f buffer s])
    next
      case (Inr s1)
      have ok: "I s1"
        using Inr "1.prems"(2,3) by blast
      from True Inr "1.prems"(1)
      have "while_lines e G f (tl (dropWhile (\<lambda>c. c \<noteq> newline) buffer)) s1 = Inr (buffer', s')"
        by (simp add: while_lines.simps [of e G f buffer s])
      then show ?thesis
        using "1.IH" [OF True Inr] ok "1.prems"(3) by blast
    qed
  qed
qed

lemma for_chunks_invariant:
  assumes "for_chunks e G f chunks buffer s = Inr (buffer', s')" and "I s"
    and "\<forall>line s s'. I s \<longrightarrow> process_line e G f line s = Inr s' \<longrightarrow> I s'"
  shows "I s'"
  using assms
proof (induction chunks arbitrary: buffer s)
  case Nil
  then show ?case by simp
next
  case (Cons chunk chunks)
  show ?case
  proof (cases "rows_read s \<ge> MAX_ROWS_TO_READ e")
    case True
    with Cons.prems show ?thesis by simp
  next
    case False
    from False Cons.prems(1) obtain b1 s1 where
      w: "while_lines e G f (buffer @ utf8_decode chunk) s = Inr (b1, s1)"
      and r: "for_chunks e G f chunks b1 s1 = Inr (buffer', s')"
      by (auto split: sum.splits)
    have "I s1"
      using while_lines_invariant [of e G f _ s b1 s1 I] w Cons.prems(2,3) by blast
    then show ?thesis
      using Cons.IH [OF r] Cons.prems(3) by blast
  qed
qed

lemma set_set_add: "set (set_add x xs) = insert x (set xs)"
  by (auto simp: set_add_def)

lemma accept_scan_inv:
  assumes "scan_inv e G f s"
  shows "scan_inv e G f (accept e G f rv ts s)"
  using assms by (auto simp: scan_inv_def accept_def set_set_add make_review_data_def)

lemma process_line_scan_inv:
  assumes "scan_inv e G f s" and "process_line e G f line s = Inr s'"
  shows "scan_inv e G f s'"
proof -
  have bump: "scan_inv e G f (s\<lparr>lines_processed := lines_processed s + 1\<rparr>)"
    using assms(1) by (simp add: scan_inv_def)
  from assms(2) show ?thesis
  proof (cases rule: process_line_cases)
    case 1
    with assms(1) show ?thesis by simp
  next
    case 2
    with bump show ?thesis by simp
  next
    case (3 rv ts)
    with accept_scan_inv [OF bump] show ?thesis by simp
  qed
qed

lemma scan_category_scan_inv:
  assumes "scan_category e G f reads = Inr (buffer, s)"
  shows "scan_inv e G f s"
proof -
  have "scan_inv e G f scan_init"
    by (simp add: scan_inv_def scan_init_def)
  moreover have "\<forall>line s s'. scan_inv e G f s \<longrightarrow> process_line e G f line s = Inr s'
                   \<longrightarrow> scan_inv e G f s'"
    using process_line_scan_inv by blast
  ultimately show ?thesis
    using for_chunks_invariant [of e G f "iter_sentinel reads" "[]" scan_init buffer s
        "scan_inv e G f"] assms
    by (simp add: scan_category_def)
qed

subsection \<open>The kept set\<close>

lemma for_other_fst:
  "fst (for_other e fd us os) = fd @ take (MAX_REVIEWS e - length fd) os"
proof (induction os arbitrary: fd us)
  case Nil
  show ?case by simp
next
  case (Cons r rs)
  show ?case
  proof (cases "length fd \<ge> MAX_REVIEWS e")
    case True
    then show ?thesis by simp
  next
    case False
    then have "MAX_REVIEWS e - length fd = Suc (MAX_REVIEWS e - length (fd @ [r]))"
      by simp
    with False Cons.IH [of "fd @ [r]" "set_add (rd_user_id r) us"] show ?thesis
      by simp
  qed
qed

lemma for_other_snd:
  "set (snd (for_other e fd us os))
     = set us \<union> rd_user_id ` set (take (MAX_REVIEWS e - length fd) os)"
proof (induction os arbitrary: fd us)
  case Nil
  show ?case by simp
next
  case (Cons r rs)
  show ?case
  proof (cases "length fd \<ge> MAX_REVIEWS e")
    case True
    then show ?thesis by simp
  next
    case False
    then have "MAX_REVIEWS e - length fd = Suc (MAX_REVIEWS e - length (fd @ [r]))"
      by simp
    with False Cons.IH [of "fd @ [r]" "set_add (rd_user_id r) us"] show ?thesis
      by (simp add: set_set_add)
  qed
qed

lemma finalize_fst:
  "fst (finalize e s)
     = priority_data s @ take (MAX_REVIEWS e - length (priority_data s)) (other_data s)"
  by (simp add: finalize_def for_other_fst)

lemma finalize_snd:
  "set (snd (finalize e s))
     = set (file_users s)
       \<union> rd_user_id ` set (take (MAX_REVIEWS e - length (priority_data s)) (other_data s))"
  by (simp add: finalize_def for_other_snd)

lemma sample_categoryE:
  assumes "sample_category e G f reads = Inr (final_data, users)"
  obtains buffer s where "scan_category e G f reads = Inr (buffer, s)"
    and "final_data = priority_data s @ take (MAX_REVIEWS e - length (priority_data s)) (other_data s)"
    and "set users = set (file_users s)
           \<union> rd_user_id ` set (take (MAX_REVIEWS e - length (priority_data s)) (other_data s))"
proof -
  from assms obtain buffer s where sc: "scan_category e G f reads = Inr (buffer, s)"
    and fin: "finalize e s = (final_data, users)"
    by (auto simp: sample_category_def split: sum.splits)
  from fin have "final_data = fst (finalize e s)" and "users = snd (finalize e s)"
    by simp_all
  with sc that show ?thesis
    by (simp add: finalize_fst finalize_snd)
qed

lemma sample_category_records:
  assumes "sample_category e G f reads = Inr (final_data, users)"
  shows "list_all (\<lambda>r. rd_filename r = f \<and> rd_timestamp r \<ge> start_date e) final_data"
proof -
  from assms obtain buffer s where sc: "scan_category e G f reads = Inr (buffer, s)"
    and fd: "final_data
               = priority_data s @ take (MAX_REVIEWS e - length (priority_data s)) (other_data s)"
    by (rule sample_categoryE)
  have "list_all (\<lambda>r. rd_filename r = f \<and> rd_timestamp r \<ge> start_date e)
          (priority_data s @ other_data s)"
    using scan_category_scan_inv [OF sc] by (simp add: scan_inv_def)
  then show ?thesis
    unfolding fd list_all_iff by (auto dest: in_set_takeD)
qed

lemma demo_scan_category:
  "scan_category demo_env [Some (str ''U1'')] (str ''Books.jsonl'') demo_reads
     = Inr ([], demo_scan)"
  by (simp add: demo_defs scan_defs)

lemma demo_sample:
  "sample_category demo_env [Some (str ''U1'')] (str ''Books.jsonl'') demo_reads
     = Inr (demo_kept, [Some (str ''U1''), Some (str ''U3'')])"
  by (simp add: sample_category_def demo_scan_category)
    (simp add: finalize_def demo_scan_def demo_kept_def demo_env_def set_add_def str_def
      make_review_data_def recent_review_def)

subsection \<open>The timestamp cutoff\<close>

text \<open>
  C3. Whatever the cap, the scan budget, the cutoff, the ledger and the input are, every
  record of a category's kept set has a timestamp greater than or equal to the cutoff
  \<^verbatim>\<open>start_date\<close>: a record whose timestamp is strictly less is never kept.
\<close>

theorem cutoff_respected:
  assumes "sample_category e ledger filename reads = Inr (final_data, users)"
    and "r \<in> set final_data"
  shows "rd_timestamp r \<ge> start_date e"
  using sample_category_records [OF assms(1)] assms(2)
  by (simp add: list_all_iff)

theorem cutoff_respected_witness:
  "sample_category demo_env [Some (str ''U1'')] (str ''Books.jsonl'') demo_reads
     = Inr (demo_kept, [Some (str ''U1''), Some (str ''U3'')])
   \<and> hd demo_kept \<in> set demo_kept
   \<and> rd_timestamp (hd demo_kept) \<ge> start_date demo_env"
proof -
  have mem: "hd demo_kept \<in> set demo_kept"
    by (simp add: demo_kept_def)
  from cutoff_respected [OF demo_sample mem] demo_sample mem show ?thesis
    by simp
qed

subsection \<open>When the scan ends\<close>

lemma takeWhile_all: "x \<notin> set xs \<Longrightarrow> takeWhile (\<lambda>c. c \<noteq> x) xs = xs"
  by (induction xs) auto










subsection \<open>The size of the kept set\<close>

text \<open>
  C1, as amended. The kept set of a category is all of its priority records, followed
  by the first \<^verbatim>\<open>MAX_REVIEWS - len(priority)\<close> other records in arrival order (none when the
  priority records reach the cap). Its size is
  \<^verbatim>\<open>len(priority) + min(len(other), cap - len(priority))\<close> when \<^verbatim>\<open>len(priority) < cap\<close>, and
  \<^verbatim>\<open>len(priority)\<close> otherwise; so it is at most the larger of the cap and
  \<^verbatim>\<open>len(priority)\<close>, and at most the cap when the priority records do not exceed it.
\<close>

theorem kept_set_composition:
  assumes "scan_category e ledger filename reads = Inr (buffer, s)"
  shows "sample_category e ledger filename reads = Inr (finalize e s)
         \<and> fst (finalize e s)
             = priority_data s @ take (MAX_REVIEWS e - length (priority_data s)) (other_data s)
         \<and> length (fst (finalize e s))
             = (if length (priority_data s) < MAX_REVIEWS e
                then length (priority_data s)
                     + min (length (other_data s)) (MAX_REVIEWS e - length (priority_data s))
                else length (priority_data s))
         \<and> length (fst (finalize e s)) \<le> max (MAX_REVIEWS e) (length (priority_data s))"
  using assms by (auto simp: sample_category_def finalize_fst)

theorem kept_set_composition_witness:
  "scan_category demo_env [Some (str ''U1'')] (str ''Books.jsonl'') demo_reads = Inr ([], demo_scan)
   \<and> sample_category demo_env [Some (str ''U1'')] (str ''Books.jsonl'') demo_reads
       = Inr (finalize demo_env demo_scan)
   \<and> fst (finalize demo_env demo_scan) = demo_kept
   \<and> length (fst (finalize demo_env demo_scan)) = 2"
  using kept_set_composition [OF demo_scan_category] demo_scan_category
  by (simp add: demo_scan_def demo_kept_def demo_env_def)

subsection \<open>Scans of many chunks of one line each\<close>

lemma utf8_decode_ascii:
  "list_all (\<lambda>c. c < 128) s \<Longrightarrow> utf8_decode (encode_ascii s) = s"
proof (induction s)
  case Nil
  then show ?case by (simp add: encode_ascii_def)
next
  case (Cons c s)
  then have c: "c < 128" and rest: "utf8_decode (encode_ascii s) = s"
    by (simp_all add: encode_ascii_def)
  have u: "unat (of_nat c :: byte) = c"
    using c by (simp add: unat_of_nat)
  then have "(of_nat c :: byte) < 0x80"
    using c by (simp add: word_less_nat_alt)
  with u rest show ?case
    by (simp add: encode_ascii_def)
qed

lemma while_lines_no_newline:
  "newline \<notin> set b \<Longrightarrow> while_lines e G f b s = Inr (b, s)"
  by (simp add: while_lines.simps [of e G f b s])

lemma while_lines_one_line:
  assumes "newline \<notin> set line" and "rows_read s < MAX_ROWS_TO_READ e"
  shows "while_lines e G f (line @ [newline]) s
           = (case process_line e G f line s of Inl err \<Rightarrow> Inl err | Inr s' \<Rightarrow> Inr ([], s'))"
proof -
  have tw: "takeWhile (\<lambda>c. c \<noteq> newline) (line @ [newline]) = line"
    using assms(1) by (simp add: takeWhile_append takeWhile_all)
  have dw: "dropWhile (\<lambda>c. c \<noteq> newline) (line @ [newline]) = [newline]"
    using assms(1) by (simp add: dropWhile_append)
  show ?thesis
    using assms(2)
    by (simp add: while_lines.simps [of e G f "line @ [newline]" s] tw dw
        while_lines_no_newline split: sum.splits)
qed

lemma strip_spaces_line_U1: "strip_spaces (line_U1 @ replicate n 32) = line_U1"
  by (simp add: strip_spaces_def line_U1_def str_def dropWhile_append)


lemma padded_chunk_decode:
  "utf8_decode padded_chunk = (line_U1 @ replicate 8149 32) @ [newline]"
  unfolding padded_chunk_def
  by (subst utf8_decode_ascii) (simp_all add: line_U1_def str_def newline_def list_all_iff)


lemma process_padded_line:
  "process_line demo_env G f (line_U1 @ replicate 8149 32) s
     = Inr (accept demo_env G f (recent_review (str ''U1'')) 1700000000000
              (s\<lparr>lines_processed := lines_processed s + 1\<rparr>))"
proof -
  have "strip_truthy (line_U1 @ replicate 8149 32)"
    by (simp add: strip_truthy_def line_U1_def str_def py_isspace_def)
  moreover have "json_loads demo_env (line_U1 @ replicate 8149 32) = Dict (recent_review (str ''U1''))"
    by (simp add: demo_env_def demo_loads_def strip_spaces_line_U1)
  ultimately show ?thesis
    by (simp add: process_line_def recent_review_def)
qed


lemma while_lines_padded:
  assumes "rows_read s < 300000"
  shows "while_lines demo_env [Some (str ''U1'')] f (utf8_decode padded_chunk) s
          = Inr ([], s\<lparr>lines_processed := lines_processed s + 1, rows_read := rows_read s + 1,
                 priority_data := priority_data s
                   @ [make_review_data (recent_review (str ''U1'')) 1700000000000 f],
                 file_users := set_add (Some (str ''U1'')) (file_users s)\<rparr>)"
proof -
  have nl: "newline \<notin> set (line_U1 @ replicate 8149 32)"
    by (simp add: line_U1_def str_def newline_def)
  have lt: "rows_read s < MAX_ROWS_TO_READ demo_env"
    using assms by (simp add: demo_env_def)
  have "accept demo_env [Some (str ''U1'')] f (recent_review (str ''U1'')) 1700000000000
          (s\<lparr>lines_processed := lines_processed s + 1\<rparr>)
        = s\<lparr>lines_processed := lines_processed s + 1, rows_read := rows_read s + 1,
             priority_data := priority_data s
               @ [make_review_data (recent_review (str ''U1'')) 1700000000000 f],
             file_users := set_add (Some (str ''U1'')) (file_users s)\<rparr>"
    by (simp add: accept_def demo_env_def recent_review_def)
  then show ?thesis
    unfolding padded_chunk_decode while_lines_one_line [OF nl lt] process_padded_line
    by simp
qed


lemma for_chunks_padded:
  assumes "rows_read s + n < 300000"
  shows "for_chunks demo_env [Some (str ''U1'')] f (replicate (Suc n) padded_chunk) [] s
          = Inr ([], s\<lparr>lines_processed := lines_processed s + Suc n,
                       rows_read := rows_read s + Suc n,
                       priority_data := priority_data s
                         @ replicate (Suc n)
                             (make_review_data (recent_review (str ''U1'')) 1700000000000 f),
                       file_users := set_add (Some (str ''U1'')) (file_users s)\<rparr>)"
  using assms
proof (induction n arbitrary: s)
  case 0
  then have "\<not> MAX_ROWS_TO_READ demo_env \<le> rows_read s"
    by (simp add: demo_env_def)
  with 0 show ?case
    by (simp add: while_lines_padded)
next
  case (Suc n)
  then have lt: "rows_read s < 300000" and ge: "\<not> MAX_ROWS_TO_READ demo_env \<le> rows_read s"
    by (simp_all add: demo_env_def)
  have "for_chunks demo_env [Some (str ''U1'')] f (replicate (Suc (Suc n)) padded_chunk) [] s
        = for_chunks demo_env [Some (str ''U1'')] f (replicate (Suc n) padded_chunk) []
            (s\<lparr>lines_processed := lines_processed s + 1, rows_read := rows_read s + 1,
               priority_data := priority_data s
                 @ [make_review_data (recent_review (str ''U1'')) 1700000000000 f],
               file_users := set_add (Some (str ''U1'')) (file_users s)\<rparr>)"
    using ge by (simp add: while_lines_padded [OF lt])
  also have "\<dots> = Inr ([], s\<lparr>lines_processed := lines_processed s + Suc (Suc n),
                       rows_read := rows_read s + Suc (Suc n),
                       priority_data := priority_data s
                         @ replicate (Suc (Suc n))
                             (make_review_data (recent_review (str ''U1'')) 1700000000000 f),
                       file_users := set_add (Some (str ''U1'')) (file_users s)\<rparr>)"
    using Suc.prems by (subst Suc.IH) (simp_all add: set_add_def replicate_append_same)
  finally show ?case .
qed

lemma padded_chunk_nonempty: "padded_chunk \<noteq> []"
  by (simp add: padded_chunk_def encode_ascii_def)


text \<open>
  C1 fails as stated: with 50001 records of a user of the ledger, each in a chunk of its
  own, the kept set has 50001 records, more than the cap of 50000.
\<close>

theorem kept_set_exceeds_cap:
  "sample_category demo_env [Some (str ''U1'')] (str ''Books.jsonl'') (replicate 50001 padded_chunk)
     = Inr (replicate 50001 (hd demo_kept), [Some (str ''U1'')])
   \<and> \<not> length (replicate 50001 (hd demo_kept)) \<le> MAX_REVIEWS demo_env"
proof -
  have "for_chunks demo_env [Some (str ''U1'')] (str ''Books.jsonl'')
          (replicate (Suc 50000) padded_chunk) [] scan_init
        = Inr ([], \<lparr>priority_data = replicate (Suc 50000) (hd demo_kept), other_data = [],
                    file_users = [Some (str ''U1'')], rows_read = Suc 50000,
                    lines_processed = Suc 50000\<rparr>)"
    by (subst for_chunks_padded) (simp_all add: scan_init_def set_add_def demo_kept_def)
  then have "scan_category demo_env [Some (str ''U1'')] (str ''Books.jsonl'')
               (replicate 50001 padded_chunk)
             = Inr ([], \<lparr>priority_data = replicate 50001 (hd demo_kept), other_data = [],
                    file_users = [Some (str ''U1'')], rows_read = 50001,
                    lines_processed = 50001\<rparr>)"
    by (simp add: scan_category_def iter_sentinel_def takeWhile_replicate padded_chunk_nonempty)
  then show ?thesis
    by (simp add: sample_category_def finalize_def demo_env_def)
qed


subsection \<open>One category, and the loop over the categories\<close>

lemma process_category_cases:
  assumes "process_category e url w l = (w', out)"
  obtains (skipped) "filename_of url \<in> set (completed_filenames l)" and "w' = w" and "out = Inr l"
  | (raised) err where "filename_of url \<notin> set (completed_filenames l)"
      and "w' = w\<lparr>requested := requested w @ [url]\<rparr>" and "out = Inl err"
  | (insert_raised) reads final_data users d err where
      "filename_of url \<notin> set (completed_filenames l)"
      and "sample_category e (global_users l) (filename_of url) reads = Inr (final_data, users)"
      and "final_data \<noteq> []"
      and "save_category_data e final_data (db w) = (d, Some err)"
      and "w' = \<lparr>db = d, requested = requested w @ [url]\<rparr>" and "out = Inl err"
  | (sampled) reads final_data users d where "filename_of url \<notin> set (completed_filenames l)"
      and "requests_get e url = Some reads"
      and "sample_category e (global_users l) (filename_of url) reads = Inr (final_data, users)"
      and "list_all (\<lambda>r. hashable (rd_parent_asin r)) final_data"
      and "(if final_data \<noteq> [] then save_category_data e final_data (db w) else (db w, None))
             = (d, None)"
      and "w' = \<lparr>db = d, requested = requested w @ [url]\<rparr>"
      and "out = Inr (l\<lparr>global_users :=
                           global_users l @ filter (\<lambda>user. user \<notin> set (global_users l)) users,
                         user_product_dict :=
                           (user_product_dict l)
                             (filename_of url \<mapsto> set (map rd_parent_asin final_data)),
                         all_dfs := all_dfs l @ [final_data]\<rparr>)"
proof (cases "filename_of url \<in> set (completed_filenames l)")
  case True
  with assms skipped show ?thesis
    by (auto simp: process_category_def)
next
  case nc: False
  show ?thesis
  proof (cases "requests_get e url")
    case None
    with assms nc raised show ?thesis
      by (auto simp: process_category_def)
  next
    case (Some reads)
    show ?thesis
    proof (cases "sample_category e (global_users l) (filename_of url) reads")
      case (Inl err)
      with assms nc Some raised show ?thesis
        by (auto simp: process_category_def)
    next
      case (Inr p)
      obtain final_data users where p: "p = (final_data, users)" by (cases p)
      show ?thesis
      proof (cases "list_all (\<lambda>r. hashable (rd_parent_asin r)) final_data")
        case False
        with assms nc Some Inr p raised show ?thesis
          by (auto simp: process_category_def)
      next
        case True
        obtain d oe where sv:
          "(if final_data \<noteq> [] then save_category_data e final_data (db w) else (db w, None))
             = (d, oe)"
          by (cases "if final_data \<noteq> [] then save_category_data e final_data (db w)
                     else (db w, None)")
        show ?thesis
        proof (cases oe)
          case None
          with assms nc Some Inr p True sv
          have "w' = \<lparr>db = d, requested = requested w @ [url]\<rparr>"
            and "out = Inr (l\<lparr>global_users :=
                           global_users l @ filter (\<lambda>user. user \<notin> set (global_users l)) users,
                         user_product_dict :=
                           (user_product_dict l)
                             (filename_of url \<mapsto> set (map rd_parent_asin final_data)),
                         all_dfs := all_dfs l @ [final_data]\<rparr>)"
            by (simp_all add: process_category_def)
          with nc Some Inr p True sv None sampled show ?thesis
            by blast
        next
          case (Some err)
          with sv have ne: "final_data \<noteq> []"
            by (auto split: if_splits)
          with sv Some have s: "save_category_data e final_data (db w) = (d, Some err)"
            by simp
          from assms nc \<open>requests_get e url = Some reads\<close> Inr p True sv Some
          have "w' = \<lparr>db = d, requested = requested w @ [url]\<rparr>" and "out = Inl err"
            by (simp_all add: process_category_def)
          with nc Inr p ne s insert_raised show ?thesis
            by blast
        qed
      qed
    qed
  qed
qed

lemma sample_category_users:
  assumes "sample_category e G f reads = Inr (final_data, users)"
  shows "set G \<union> set users = set G \<union> rd_user_id ` set final_data"
proof -
  from assms obtain buffer s where sc: "scan_category e G f reads = Inr (buffer, s)"
    and fd: "final_data
               = priority_data s @ take (MAX_REVIEWS e - length (priority_data s)) (other_data s)"
    and us: "set users = set (file_users s)
               \<union> rd_user_id ` set (take (MAX_REVIEWS e - length (priority_data s)) (other_data s))"
    by (rule sample_categoryE)
  from scan_category_scan_inv [OF sc]
  have fu: "set (file_users s) = rd_user_id ` set (priority_data s)"
    and pr: "rd_user_id ` set (priority_data s) \<subseteq> set G"
    by (auto simp: scan_inv_def list_all_iff)
  show ?thesis
    unfolding us fd fu using pr by auto
qed

lemma process_category_ledger:
  assumes "process_category e url w l = (w', Inr l')"
  shows "\<exists>added new. global_users l' = global_users l @ added
           \<and> all_dfs l' = all_dfs l @ new
           \<and> set (global_users l') = set (global_users l) \<union> rd_user_id ` set (concat new)"
  using assms
proof (cases rule: process_category_cases)
  case skipped
  then show ?thesis by simp
next
  case (raised err)
  then show ?thesis by simp
next
  case (insert_raised reads final_data users d err)
  then show ?thesis by simp
next
  case (sampled reads final_data users d)
  from sample_category_users [OF sampled(3)]
  have "set (global_users l) \<union> set users
          = set (global_users l) \<union> rd_user_id ` set final_data" .
  moreover have "set (global_users l @ filter (\<lambda>user. user \<notin> set (global_users l)) users)
                   = set (global_users l) \<union> set users"
    by auto
  ultimately show ?thesis
    using sampled(7) by simp
qed

lemma for_files_ledger:
  assumes "for_files e review_files w l = (w', Inr l')"
  shows "\<exists>added new. global_users l' = global_users l @ added
           \<and> all_dfs l' = all_dfs l @ new
           \<and> set (global_users l') = set (global_users l) \<union> rd_user_id ` set (concat new)"
  using assms
proof (induction review_files arbitrary: w l)
  case Nil
  then show ?case by simp
next
  case (Cons url urls)
  from Cons.prems obtain w1 l1 where step: "process_category e url w l = (w1, Inr l1)"
    and rest: "for_files e urls w1 l1 = (w', Inr l')"
    by (auto split: prod.splits sum.splits)
  from process_category_ledger [OF step] obtain added1 new1 where
    s1: "global_users l1 = global_users l @ added1" "all_dfs l1 = all_dfs l @ new1"
      "set (global_users l1) = set (global_users l) \<union> rd_user_id ` set (concat new1)"
    by blast
  from Cons.IH [OF rest] obtain added2 new2 where
    s2: "global_users l' = global_users l1 @ added2" "all_dfs l' = all_dfs l1 @ new2"
      "set (global_users l') = set (global_users l1) \<union> rd_user_id ` set (concat new2)"
    by blast
  have "global_users l' = global_users l @ (added1 @ added2)"
    and "all_dfs l' = all_dfs l @ (new1 @ new2)"
    and "set (global_users l')
           = set (global_users l) \<union> rd_user_id ` set (concat (new1 @ new2))"
    using s1 s2 by auto
  then show ?case by blast
qed

lemma filename_of_books: "filename_of books_url = str ''Books.jsonl''"
  by (simp add: filename_of_def split_last_def books_url_def str_def)

lemma filename_of_toys: "filename_of toys_url = str ''Toys.jsonl''"
  by (simp add: filename_of_def split_last_def toys_url_def str_def)

lemma demo_kept_hashable: "list_all (\<lambda>r. hashable (rd_parent_asin r)) demo_kept"
  by (simp add: demo_kept_def make_review_data_def recent_review_def get_def)

lemma demo_queries:
  "get_existing_users demo_env demo_db = [Some (str ''U1'')]"
  "get_completed_categories demo_env demo_db = [str ''Toys.jsonl'']"
  by (simp_all add: get_existing_users_def get_completed_categories_def demo_env_def demo_db_def
      toys_row_def)

lemma demo_process_toys:
  "process_category demo_env toys_url w demo_locals = (w, Inr demo_locals)"
  by (simp add: process_category_def filename_of_toys demo_locals_def)

lemma demo_process_books:
  "process_category demo_env books_url \<lparr>db = demo_db, requested = []\<rparr> demo_locals
     = (demo_world_after, Inr demo_locals_after)"
proof -
  have ne: "filename_of books_url \<notin> set (completed_filenames demo_locals)"
    by (simp add: filename_of_books demo_locals_def str_def)
  have get: "requests_get demo_env books_url = Some demo_reads"
    by (simp add: demo_env_def)
  have gu: "global_users demo_locals = [Some (str ''U1'')]"
    by (simp add: demo_locals_def)
  have nonempty: "demo_kept \<noteq> []"
    by (simp add: demo_kept_def)
  have save: "save_category_data demo_env demo_kept demo_db
                = (\<lparr>committed = toys_row # map (data_tuple demo_env) demo_kept, pending = []\<rparr>,
                   None)"
    by (simp add: save_category_data_def demo_env_def demo_db_def commit_def executemany_def)
  have users: "filter (\<lambda>user. user \<notin> set [Some (str ''U1'')]) [Some (str ''U1''), Some (str ''U3'')]
                 = [Some (str ''U3'')]"
    by (simp add: str_def)
  show ?thesis
    unfolding process_category_def
    by (simp add: ne get gu filename_of_books demo_sample demo_kept_hashable nonempty save users)
      (simp add: demo_world_after_def demo_locals_after_def demo_locals_def str_def)
qed

lemma demo_run:
  "parse_review_files demo_env [toys_url, books_url] demo_db
     = (demo_world_after, Inr demo_locals_after)"
  by (simp add: parse_review_files_def demo_queries demo_process_toys [unfolded demo_locals_def]
      demo_process_books [unfolded demo_locals_def])

lemma demo_for_files:
  "for_files demo_env [toys_url, books_url] \<lparr>db = demo_db, requested = []\<rparr> demo_locals
     = (demo_world_after, Inr demo_locals_after)"
  using demo_run by (simp add: parse_review_files_def demo_queries demo_locals_def)

subsection \<open>The ledger\<close>

text \<open>
  C5. Over any stretch of a run that ends without an exception (one category, or all of
  them), the ledger \<^verbatim>\<open>global_users\<close> only grows: the old ledger is a prefix of the new one.
  The loop hands the ledger on from each category to the next, and the identifiers it
  holds afterwards are exactly those it held before and the user identifiers of the
  kept sets that the stretch appended to \<^verbatim>\<open>all_dfs\<close>: no identifier that occurs only in
  discarded candidates is added.
\<close>

theorem ledger_grows_by_kept_users:
  assumes "for_files e review_files w l = (w', Inr l')"
  shows "prefix (global_users l) (global_users l')
         \<and> prefix (all_dfs l) (all_dfs l')
         \<and> set (global_users l')
             = set (global_users l)
               \<union> rd_user_id ` set (concat (drop (length (all_dfs l)) (all_dfs l')))"
proof -
  from for_files_ledger [OF assms] obtain added new where
    "global_users l' = global_users l @ added" "all_dfs l' = all_dfs l @ new"
    "set (global_users l') = set (global_users l) \<union> rd_user_id ` set (concat new)"
    by blast
  then show ?thesis by simp
qed

theorem ledger_grows_by_kept_users_witness:
  "for_files demo_env [toys_url, books_url] \<lparr>db = demo_db, requested = []\<rparr> demo_locals
     = (demo_world_after, Inr demo_locals_after)
   \<and> prefix (global_users demo_locals) (global_users demo_locals_after)
   \<and> prefix (all_dfs demo_locals) (all_dfs demo_locals_after)
   \<and> set (global_users demo_locals_after)
       = set (global_users demo_locals)
         \<union> rd_user_id ` set (concat (drop (length (all_dfs demo_locals))
                                          (all_dfs demo_locals_after)))"
  using ledger_grows_by_kept_users [OF demo_for_files] demo_for_files
  by simp

subsection \<open>Categories that the store already holds\<close>


lemma save_category_data_committed:
  assumes "insert_outcome e (committed d) (map (data_tuple e) df) \<noteq> Commits"
  shows "committed (fst (save_category_data e df d)) = committed d"
  using assms
  by (cases "insert_outcome e (committed d) (map (data_tuple e) df)")
    (simp_all add: save_category_data_def except_psycopg2_Error_def rollback_def executemany_def)

lemma save_category_data_rollback:
  assumes "pending d = []" and "rolled_back e df d"
  shows "save_category_data e df d = (d, None)"
  using assms
  by (cases "insert_outcome e (committed d) (map (data_tuple e) df)")
    (simp_all add: save_category_data_def except_psycopg2_Error_def rolled_back_def rollback_def
      executemany_def)





subsection \<open>A batch insert that fails\<close>

lemma process_category_db:
  assumes "filename_of file_url \<notin> set (completed_filenames l)"
    and "requests_get e file_url = Some reads"
    and "sample_category e (global_users l) (filename_of file_url) reads = Inr (final_data, users)"
    and "list_all (\<lambda>r. hashable (rd_parent_asin r)) final_data"
    and "final_data \<noteq> []"
  shows "db (fst (process_category e file_url w l)) = fst (save_category_data e final_data (db w))"
  using assms
  by (cases "save_category_data e final_data (db w)")
    (simp add: process_category_def split: option.splits)

text \<open>
  C7, as amended. Take a category that is not skipped, whose kept set is not empty and
  reaches \<^verbatim>\<open>save_category_data\<close>, and whose insert does not commit, in whatever way:
  \<^verbatim>\<open>executemany\<close> or \<^verbatim>\<open>commit\<close> raises, \<^verbatim>\<open>psycopg2.Error\<close> or not, and the rollback raises or not.
  Then no row of the batch is committed: the committed rows are those that were there, a
  store without a row of the category still has none, and the completed filenames that
  a later connection reads, whatever its environment, do not list the category. When
  what was raised is \<^verbatim>\<open>psycopg2.Error\<close> and the rollback does not raise, the store is left as it
  was, no exception leaves the category, and the loop goes on with the next category.
\<close>

theorem failed_insert_not_committed:
  assumes "filename_of file_url \<notin> set (completed_filenames l)"
    and "requests_get e file_url = Some reads"
    and "sample_category e (global_users l) (filename_of file_url) reads = Inr (final_data, users)"
    and "list_all (\<lambda>r. hashable (rd_parent_asin r)) final_data"
    and "final_data \<noteq> []"
    and "insert_outcome e (committed (db w)) (map (data_tuple e) final_data) \<noteq> Commits"
    and "pending (db w) = []"
    and "filename_of file_url \<notin> col_filename ` set (committed (db w))"
  shows "committed (db (fst (process_category e file_url w l))) = committed (db w)
         \<and> filename_of file_url
             \<notin> col_filename ` set (committed (db (fst (process_category e file_url w l))))
         \<and> filename_of file_url
             \<notin> set (get_completed_categories e2
                      (connection_close (db (fst (process_category e file_url w l)))))
         \<and> (rolled_back e final_data (db w) \<longrightarrow>
               db (fst (process_category e file_url w l)) = db w
               \<and> (\<exists>l'. process_category e file_url w l
                          = (w\<lparr>requested := requested w @ [file_url]\<rparr>, Inr l')
                      \<and> for_files e (file_url # review_files) w l
                          = for_files e review_files
                              (w\<lparr>requested := requested w @ [file_url]\<rparr>) l'))"
proof -
  have c: "committed (db (fst (process_category e file_url w l))) = committed (db w)"
    using process_category_db [OF assms(1-5)] save_category_data_committed [OF assms(6)]
    by simp
  with assms(8) have z: "filename_of file_url
             \<notin> col_filename ` set (committed (db (fst (process_category e file_url w l))))"
    by simp
  then have n: "filename_of file_url
             \<notin> set (get_completed_categories e2
                      (connection_close (db (fst (process_category e file_url w l)))))"
    by (simp add: get_completed_categories_def connection_close_def)
  have "db (fst (process_category e file_url w l)) = db w
        \<and> (\<exists>l'. process_category e file_url w l
                   = (w\<lparr>requested := requested w @ [file_url]\<rparr>, Inr l')
               \<and> for_files e (file_url # review_files) w l
                   = for_files e review_files (w\<lparr>requested := requested w @ [file_url]\<rparr>) l')"
    if "rolled_back e final_data (db w)"
  proof -
    have save: "save_category_data e final_data (db w) = (db w, None)"
      using assms(7) that by (rule save_category_data_rollback)
    have step: "process_category e file_url w l
                  = (w\<lparr>requested := requested w @ [file_url]\<rparr>,
                     Inr (l\<lparr>global_users :=
                              global_users l @ filter (\<lambda>user. user \<notin> set (global_users l)) users,
                            user_product_dict :=
                              (user_product_dict l)
                                (filename_of file_url \<mapsto> set (map rd_parent_asin final_data)),
                            all_dfs := all_dfs l @ [final_data]\<rparr>))"
      using assms(1-5) save by (simp add: process_category_def)
    then show ?thesis
      by simp
  qed
  with c z n show ?thesis
    by blast
qed

lemma failing_sample:
  "sample_category failing_env [Some (str ''U1'')] (str ''Books.jsonl'') demo_reads
     = Inr (demo_kept, [Some (str ''U1''), Some (str ''U3'')])"
  by (simp add: failing_env_def demo_defs scan_defs make_review_data_def get_def get_default_def)

theorem failed_insert_not_committed_witness:
  "filename_of books_url \<notin> set (completed_filenames demo_locals)
   \<and> requests_get failing_env books_url = Some demo_reads
   \<and> sample_category failing_env (global_users demo_locals) (filename_of books_url) demo_reads
       = Inr (demo_kept, [Some (str ''U1''), Some (str ''U3'')])
   \<and> list_all (\<lambda>r. hashable (rd_parent_asin r)) demo_kept
   \<and> demo_kept \<noteq> []
   \<and> insert_outcome failing_env (committed demo_db) (map (data_tuple failing_env) demo_kept)
       \<noteq> Commits
   \<and> pending demo_db = []
   \<and> filename_of books_url \<notin> col_filename ` set (committed demo_db)
   \<and> rolled_back failing_env demo_kept demo_db
   \<and> committed (db (fst (process_category failing_env books_url
                            \<lparr>db = demo_db, requested = []\<rparr> demo_locals)))
       = committed demo_db
   \<and> filename_of books_url
       \<notin> set (get_completed_categories demo_env
                (connection_close
                   (db (fst (process_category failing_env books_url
                               \<lparr>db = demo_db, requested = []\<rparr> demo_locals)))))
   \<and> (\<exists>l'. process_category failing_env books_url \<lparr>db = demo_db, requested = []\<rparr> demo_locals
              = (\<lparr>db = demo_db, requested = [books_url]\<rparr>, Inr l')
          \<and> for_files failing_env [books_url, toys_url] \<lparr>db = demo_db, requested = []\<rparr> demo_locals
              = for_files failing_env [toys_url] \<lparr>db = demo_db, requested = [books_url]\<rparr> l')"
proof -
  have h1: "filename_of books_url \<notin> set (completed_filenames demo_locals)"
    by (simp add: filename_of_books demo_locals_def str_def)
  have h2: "requests_get failing_env books_url = Some demo_reads"
    by (simp add: failing_env_def demo_env_def)
  have h3: "sample_category failing_env (global_users demo_locals) (filename_of books_url)
              demo_reads = Inr (demo_kept, [Some (str ''U1''), Some (str ''U3'')])"
    by (simp add: filename_of_books demo_locals_def failing_sample)
  have h5: "demo_kept \<noteq> []"
    by (simp add: demo_kept_def)
  have h6: "insert_outcome failing_env (committed (db \<lparr>db = demo_db, requested = []\<rparr>))
              (map (data_tuple failing_env) demo_kept) \<noteq> Commits"
    by (simp add: failing_env_def)
  have h7: "pending (db \<lparr>db = demo_db, requested = []\<rparr>) = []"
    by (simp add: demo_db_def)
  have h8: "filename_of books_url
              \<notin> col_filename ` set (committed (db \<lparr>db = demo_db, requested = []\<rparr>))"
    by (simp add: filename_of_books demo_db_def toys_row_def str_def)
  have rb: "rolled_back failing_env demo_kept (db \<lparr>db = demo_db, requested = []\<rparr>)"
    by (simp add: rolled_back_def failing_env_def demo_env_def)
  from failed_insert_not_committed [OF h1 h2 h3 demo_kept_hashable h5 h6 h7 h8,
      of demo_env "[toys_url]"]
    h1 h2 h3 demo_kept_hashable h5 h6 h7 h8 rb
  show ?thesis
    by (intro conjI; (elim conjE impE)?; (assumption | simp del: for_files.simps))
qed

lemma uncaught_sample:
  "sample_category uncaught_env [] (str ''Books.jsonl'') demo_reads
     = Inr (demo_kept, [Some (str ''U1''), Some (str ''U3'')])"
  by (simp add: uncaught_env_def demo_defs scan_defs make_review_data_def get_def get_default_def)

text \<open>
  C7 fails as stated: an insert that raises an exception of another class than
  \<^verbatim>\<open>psycopg2.Error\<close> is not caught by line 127. The exception leaves
  \<^verbatim>\<open>parse_review_files\<close> after the first of two categories, neither of them completed, and
  the second is never requested: the run does not continue with the next category.
\<close>

theorem uncaught_insert_exception_ends_run:
  "insert_outcome uncaught_env (committed empty_db) (map (data_tuple uncaught_env) demo_kept)
     \<noteq> Commits
   \<and> filename_of toys_url \<notin> set (get_completed_categories uncaught_env empty_db)
   \<and> parse_review_files uncaught_env [books_url, toys_url] empty_db
       = (uncaught_world_after, Inl OtherException)
   \<and> toys_url \<notin> set (requested uncaught_world_after)"
proof -
  have q: "get_existing_users uncaught_env empty_db = []"
    "get_completed_categories uncaught_env empty_db = []"
    by (simp_all add: get_existing_users_def get_completed_categories_def uncaught_env_def
        demo_env_def empty_db_def)
  have get: "requests_get uncaught_env books_url = Some demo_reads"
    by (simp add: uncaught_env_def demo_env_def)
  have ne: "demo_kept \<noteq> []"
    by (simp add: demo_kept_def)
  have out: "insert_outcome uncaught_env rows batch = ExecuteRaisesOther 1" for rows batch
    by (simp add: uncaught_env_def)
  have save: "save_category_data uncaught_env demo_kept empty_db
                = (\<lparr>committed = [], pending = [data_tuple uncaught_env (hd demo_kept)]\<rparr>,
                   Some OtherException)"
    by (simp add: save_category_data_def out executemany_def empty_db_def demo_kept_def)
  have run: "parse_review_files uncaught_env [books_url, toys_url] empty_db
               = (uncaught_world_after, Inl OtherException)"
    by (simp add: parse_review_files_def q process_category_def get filename_of_books
        uncaught_sample demo_kept_hashable ne save uncaught_world_after_def)
  have "toys_url \<notin> set (requested uncaught_world_after)"
    by (simp add: uncaught_world_after_def toys_url_def books_url_def str_def)
  with q out run show ?thesis
    by simp
qed

subsection \<open>A category without candidates\<close>

lemma old_scan_category:
  "scan_category old_env [] (str ''Books.jsonl'') [encode_ascii (line_U2_old @ [newline])]
     = Inr ([], old_scan)"
  by (simp add: old_env_def old_scan_def demo_defs scan_defs)

text \<open>
  C9, as amended. A category whose scan accepts no record has an empty kept set. An
  empty \<^verbatim>\<open>DataFrame\<close> is not saved (line 237), so the store is left as it is and a later
  query of the completed filenames gives what it gave before: the category is not
  marked completed. The run goes on, with an empty entry in the product dictionary.
\<close>

theorem empty_category_not_marked_completed:
  assumes "filename_of file_url \<notin> set (completed_filenames l)"
    and "requests_get e file_url = Some reads"
    and "scan_category e (global_users l) (filename_of file_url) reads = Inr (buffer, s)"
    and "rows_read s = 0"
  shows "sample_category e (global_users l) (filename_of file_url) reads = Inr ([], [])
         \<and> process_category e file_url w l
             = (w\<lparr>requested := requested w @ [file_url]\<rparr>,
                Inr (l\<lparr>user_product_dict := (user_product_dict l)(filename_of file_url \<mapsto> {}),
                       all_dfs := all_dfs l @ [[]]\<rparr>))
         \<and> db (fst (process_category e file_url w l)) = db w
         \<and> get_completed_categories e2 (db (fst (process_category e file_url w l)))
             = get_completed_categories e2 (db w)"
proof -
  from scan_category_scan_inv [OF assms(3)] assms(4)
  have "priority_data s = []" and "other_data s = []" and "file_users s = []"
    by (auto simp: scan_inv_def)
  then have "finalize e s = ([], [])"
    by (simp add: finalize_def)
  with assms(3) have sample:
    "sample_category e (global_users l) (filename_of file_url) reads = Inr ([], [])"
    by (simp add: sample_category_def)
  have step: "process_category e file_url w l
             = (w\<lparr>requested := requested w @ [file_url]\<rparr>,
                Inr (l\<lparr>user_product_dict := (user_product_dict l)(filename_of file_url \<mapsto> {}),
                       all_dfs := all_dfs l @ [[]]\<rparr>))"
    using assms(1,2) sample by (simp add: process_category_def)
  with sample show ?thesis
    by simp
qed

theorem empty_category_not_marked_completed_witness:
  "filename_of books_url \<notin> set (completed_filenames
       \<lparr>global_users = [], completed_filenames = [], user_product_dict = Map.empty, all_dfs = []\<rparr>)
   \<and> requests_get old_env books_url = Some [encode_ascii (line_U2_old @ [newline])]
   \<and> scan_category old_env [] (filename_of books_url) [encode_ascii (line_U2_old @ [newline])]
       = Inr ([], old_scan)
   \<and> rows_read old_scan = 0
   \<and> sample_category old_env [] (filename_of books_url) [encode_ascii (line_U2_old @ [newline])]
       = Inr ([], [])
   \<and> process_category old_env books_url \<lparr>db = empty_db, requested = []\<rparr>
         \<lparr>global_users = [], completed_filenames = [], user_product_dict = Map.empty, all_dfs = []\<rparr>
       = (\<lparr>db = empty_db, requested = [books_url]\<rparr>, Inr old_locals_after)
   \<and> get_completed_categories old_env
         (db (fst (process_category old_env books_url \<lparr>db = empty_db, requested = []\<rparr>
            \<lparr>global_users = [], completed_filenames = [], user_product_dict = Map.empty,
              all_dfs = []\<rparr>)))
       = get_completed_categories old_env empty_db"
proof -
  let ?l = "\<lparr>global_users = [], completed_filenames = [], user_product_dict = Map.empty,
             all_dfs = []\<rparr> :: locals"
  have h1: "filename_of books_url \<notin> set (completed_filenames ?l)"
    by simp
  have h2: "requests_get old_env books_url = Some [encode_ascii (line_U2_old @ [newline])]"
    by (simp add: old_env_def demo_env_def)
  have h3: "scan_category old_env (global_users ?l) (filename_of books_url)
              [encode_ascii (line_U2_old @ [newline])] = Inr ([], old_scan)"
    by (simp add: filename_of_books old_scan_category)
  have h4: "rows_read old_scan = 0"
    by (simp add: old_scan_def)
  from empty_category_not_marked_completed [OF h1 h2 h3 h4,
      of "\<lparr>db = empty_db, requested = []\<rparr>" old_env] h1 h2 h3 h4
  show ?thesis
    by (simp add: old_locals_after_def filename_of_books)
qed

text \<open>
  C9 fails as stated: a category whose only line is older than the cutoff is requested,
  leaves the store empty, is absent from the completed filenames that the next run
  reads, and is requested again by that run.
\<close>

theorem empty_category_rescanned:
  "parse_review_files old_env [books_url] empty_db
     = (\<lparr>db = empty_db, requested = [books_url]\<rparr>, Inr old_locals_after)
   \<and> all_dfs old_locals_after = [[]]
   \<and> filename_of books_url
       \<notin> set (get_completed_categories old_env
                (db (fst (parse_review_files old_env [books_url] empty_db))))
   \<and> requested (fst (parse_review_files old_env [books_url]
                        (db (fst (parse_review_files old_env [books_url] empty_db)))))
       = [books_url]"
proof -
  have q: "get_existing_users old_env empty_db = []"
    "get_completed_categories old_env empty_db = []"
    by (simp_all add: get_existing_users_def get_completed_categories_def old_env_def
        demo_env_def empty_db_def)
  have get: "requests_get old_env books_url = Some [encode_ascii (line_U2_old @ [newline])]"
    by (simp add: old_env_def demo_env_def)
  have sample: "sample_category old_env [] (str ''Books.jsonl'')
                  [encode_ascii (line_U2_old @ [newline])] = Inr ([], [])"
    by (simp add: sample_category_def old_scan_category)
      (simp add: finalize_def old_scan_def old_env_def demo_env_def)
  have run: "parse_review_files old_env [books_url] empty_db
               = (\<lparr>db = empty_db, requested = [books_url]\<rparr>, Inr old_locals_after)"
    by (simp add: parse_review_files_def q process_category_def get filename_of_books sample
        old_locals_after_def)
  then show ?thesis
    by (simp add: q old_locals_after_def)
qed

subsection \<open>Chunks and lines\<close>

lemma while_lines_append:
  "while_lines e G f (x @ y) s
     = (case while_lines e G f x s of
          Inl err \<Rightarrow> Inl err
        | Inr (x', s') \<Rightarrow> while_lines e G f (x' @ y) s')"
proof (induction e G f x s rule: while_lines.induct)
  case (1 e G f buffer s)
  show ?case
  proof (cases "newline \<in> set buffer \<and> rows_read s < MAX_ROWS_TO_READ e")
    case False
    then have c: "(newline \<in> set buffer \<and> rows_read s < MAX_ROWS_TO_READ e) = False"
      by simp
    show ?thesis
      by (simp add: while_lines.simps [of e G f buffer s] c)
  next
    case True
    then have tw: "takeWhile (\<lambda>c. c \<noteq> newline) (buffer @ y)
                     = takeWhile (\<lambda>c. c \<noteq> newline) buffer"
      and dw: "tl (dropWhile (\<lambda>c. c \<noteq> newline) (buffer @ y))
                 = tl (dropWhile (\<lambda>c. c \<noteq> newline) buffer) @ y"
      by (auto simp: takeWhile_append dropWhile_append dropWhile_eq_Nil_conv)
    show ?thesis
    proof (cases "process_line e G f (takeWhile (\<lambda>c. c \<noteq> newline) buffer) s")
      case (Inl err)
      with True show ?thesis
        by (simp add: while_lines.simps [of e G f buffer s]
            while_lines.simps [of e G f "buffer @ y" s] tw)
    next
      case (Inr s1)
      from "1.IH" [OF True Inr] Inr True show ?thesis
        by (simp add: while_lines.simps [of e G f buffer s]
            while_lines.simps [of e G f "buffer @ y" s] tw dw)
    qed
  qed
qed

lemma while_lines_at_budget:
  "rows_read s \<ge> MAX_ROWS_TO_READ e \<Longrightarrow> while_lines e G f b s = Inr (b, s)"
  by (simp add: while_lines.simps [of e G f b s])

lemma while_lines_stops:
  assumes "while_lines e G f b s = Inr (b', s')"
  shows "rows_read s' \<ge> MAX_ROWS_TO_READ e \<or> newline \<notin> set b'"
  using assms
proof (induction e G f b s rule: while_lines.induct)
  case (1 e G f buffer s)
  show ?case
  proof (cases "newline \<in> set buffer \<and> rows_read s < MAX_ROWS_TO_READ e")
    case False
    then have c: "(newline \<in> set buffer \<and> rows_read s < MAX_ROWS_TO_READ e) = False"
      by simp
    from "1.prems" have "b' = buffer" and "s' = s"
      by (simp_all add: while_lines.simps [of e G f buffer s] c)
    with False show ?thesis by auto
  next
    case True
    show ?thesis
    proof (cases "process_line e G f (takeWhile (\<lambda>c. c \<noteq> newline) buffer) s")
      case (Inl err)
      with True "1.prems" show ?thesis
        by (simp add: while_lines.simps [of e G f buffer s])
    next
      case (Inr s1)
      from True Inr "1.prems"
      have "while_lines e G f (tl (dropWhile (\<lambda>c. c \<noteq> newline) buffer)) s1 = Inr (b', s')"
        by (simp add: while_lines.simps [of e G f buffer s])
      with "1.IH" [OF True Inr] show ?thesis .
    qed
  qed
qed

lemma for_chunks_decoded_text:
  assumes "rows_read s \<ge> MAX_ROWS_TO_READ e \<or> newline \<notin> set b"
  shows "map_sum id snd (for_chunks e G f chunks b s)
           = map_sum id snd (while_lines e G f (b @ concat (map utf8_decode chunks)) s)"
  using assms
proof (induction chunks arbitrary: b s)
  case Nil
  then show ?case
    by (auto simp: while_lines_at_budget while_lines_no_newline)
next
  case (Cons c cs)
  show ?case
  proof (cases "rows_read s \<ge> MAX_ROWS_TO_READ e")
    case True
    then show ?thesis
      by (simp add: while_lines_at_budget)
  next
    case False
    have split: "while_lines e G f (b @ concat (map utf8_decode (c # cs))) s
                   = (case while_lines e G f (b @ utf8_decode c) s of
                        Inl err \<Rightarrow> Inl err
                      | Inr (b1, s1) \<Rightarrow>
                          while_lines e G f (b1 @ concat (map utf8_decode cs)) s1)"
      using while_lines_append [of e G f "b @ utf8_decode c" "concat (map utf8_decode cs)" s]
      by simp
    show ?thesis
    proof (cases "while_lines e G f (b @ utf8_decode c) s")
      case (Inl err)
      with False split show ?thesis by simp
    next
      case (Inr p)
      obtain b1 s1 where p: "p = (b1, s1)" by (cases p)
      from while_lines_stops [OF Inr [unfolded p]]
      have "rows_read s1 \<ge> MAX_ROWS_TO_READ e \<or> newline \<notin> set b1" .
      from Cons.IH [OF this] Inr p False split show ?thesis by simp
    qed
  qed
qed

lemma scan_category_decoded_text:
  "map_sum id snd (scan_category e G f reads)
     = map_sum id snd
         (while_lines e G f (concat (map utf8_decode (iter_sentinel reads))) scan_init)"
  using for_chunks_decoded_text [where s = scan_init and b = "[]" and e = e and G = G and f = f
      and chunks = "iter_sentinel reads"]
  by (simp add: scan_category_def)

lemma while_lines_tail:
  assumes "newline \<notin> set u"
  shows "map_sum id snd (while_lines e G f (b @ u) s) = map_sum id snd (while_lines e G f b s)"
proof (cases "while_lines e G f b s")
  case (Inl err)
  then show ?thesis
    by (simp add: while_lines_append)
next
  case (Inr p)
  obtain b' s' where p: "p = (b', s')" by (cases p)
  from while_lines_stops [OF Inr [unfolded p]] assms
  have "while_lines e G f (b' @ u) s' = Inr (b' @ u, s')"
    by (auto simp: while_lines_at_budget while_lines_no_newline)
  with Inr p show ?thesis
    by (simp add: while_lines_append)
qed

text \<open>
  C10. Take two sources such that the text decoded from the second is the text decoded
  from the first followed by text without a newline: an unterminated last line. Then
  their scans end in the same way, with the same exception or with the same variables:
  the same records in both buffers, the same \<^verbatim>\<open>rows_read\<close> and \<^verbatim>\<open>lines_processed\<close>, and so the
  same kept set. What follows the last newline is neither parsed nor counted nor kept.
\<close>

theorem unterminated_tail_discarded:
  assumes "concat (map utf8_decode (iter_sentinel reads'))
             = concat (map utf8_decode (iter_sentinel reads)) @ u"
    and "newline \<notin> set u"
  shows "map_sum id snd (scan_category e ledger filename reads')
           = map_sum id snd (scan_category e ledger filename reads)
         \<and> sample_category e ledger filename reads' = sample_category e ledger filename reads"
proof -
  have scan: "map_sum id snd (scan_category e ledger filename reads')
                = map_sum id snd (scan_category e ledger filename reads)"
    using while_lines_tail [OF assms(2), of e ledger filename
        "concat (map utf8_decode (iter_sentinel reads))" scan_init] assms(1)
    by (simp add: scan_category_decoded_text)
  have "sample_category e ledger filename rs
          = (case map_sum id snd (scan_category e ledger filename rs) of
               Inl err \<Rightarrow> Inl err | Inr s \<Rightarrow> Inr (finalize e s))" for rs
    by (simp add: sample_category_def split: sum.splits prod.splits)
  with scan show ?thesis
    by simp
qed

theorem unterminated_tail_discarded_witness:
  "concat (map utf8_decode (iter_sentinel [terminated_chunk @ tail_bytes]))
     = concat (map utf8_decode (iter_sentinel [terminated_chunk])) @ line_U3
   \<and> newline \<notin> set line_U3
   \<and> map_sum id snd (scan_category demo_env [] (str ''Books.jsonl'')
                        [terminated_chunk @ tail_bytes])
       = map_sum id snd (scan_category demo_env [] (str ''Books.jsonl'') [terminated_chunk])
   \<and> sample_category demo_env [] (str ''Books.jsonl'') [terminated_chunk @ tail_bytes]
       = sample_category demo_env [] (str ''Books.jsonl'') [terminated_chunk]
   \<and> sample_category demo_env [] (str ''Books.jsonl'') [terminated_chunk]
       = Inr ([hd demo_kept], [Some (str ''U1'')])"
proof -
  have h1: "concat (map utf8_decode (iter_sentinel [terminated_chunk @ tail_bytes]))
              = concat (map utf8_decode (iter_sentinel [terminated_chunk])) @ line_U3"
    by (simp add: terminated_chunk_def tail_bytes_def iter_sentinel_def demo_defs)
  have h2: "newline \<notin> set line_U3"
    by (simp add: demo_defs)
  have s: "sample_category demo_env [] (str ''Books.jsonl'') [terminated_chunk]
             = Inr ([hd demo_kept], [Some (str ''U1'')])"
    by (simp add: terminated_chunk_def demo_defs scan_defs make_review_data_def)
  from unterminated_tail_discarded [OF h1 h2, of demo_env "[]" "str ''Books.jsonl''"] h1 h2 s
  show ?thesis
    by simp
qed

subsection \<open>A character cut by a chunk boundary\<close>

lemma utf8_decode_ascii_append:
  "list_all (\<lambda>c. c < 128) s \<Longrightarrow> utf8_decode (encode_ascii s @ bs) = s @ utf8_decode bs"
proof (induction s)
  case Nil
  then show ?case by (simp add: encode_ascii_def)
next
  case (Cons c s)
  then have c: "c < 128" and rest: "utf8_decode (encode_ascii s @ bs) = s @ utf8_decode bs"
    by (simp_all add: encode_ascii_def)
  have u: "unat (of_nat c :: byte) = c"
    using c by (simp add: unat_of_nat)
  then have "(of_nat c :: byte) < 0x80"
    using c by (simp add: word_less_nat_alt)
  with u rest show ?case
    by (simp add: encode_ascii_def)
qed

lemma accent_same_stream: "concat accent_reads = concat accent_reads_aligned"
  by (simp add: accent_reads_def accent_reads_aligned_def)

lemma accent_head_ascii:
  \<open>list_all (\<lambda>c. c < 128) (replicate 8179 32 @ str ''{"user_id":"'')\<close>
  by (simp add: str_def list_all_iff)

lemma accent_rest_decode:
  \<open>utf8_decode accent_rest = str ''","timestamp":1700000000000}'' @ [newline]\<close>
  unfolding accent_rest_def
  by (rule utf8_decode_ascii) (simp add: str_def newline_def)

lemma accent_decode_split:
  \<open>utf8_decode (accent_head @ [0xC3]) = replicate 8179 32 @ str ''{"user_id":"''\<close>
  \<open>utf8_decode (0xA9 # accent_rest) = str ''","timestamp":1700000000000}'' @ [newline]\<close>
  unfolding accent_head_def
  by (simp_all add: utf8_decode_ascii_append [OF accent_head_ascii] accent_rest_decode)

lemma accent_decode_aligned:
  \<open>utf8_decode accent_head = replicate 8179 32 @ str ''{"user_id":"''\<close>
  \<open>utf8_decode (0xC3 # 0xA9 # accent_rest)
     = 233 # str ''","timestamp":1700000000000}'' @ [newline]\<close>
  unfolding accent_head_def
  by (simp_all add: utf8_decode_ascii [OF accent_head_ascii] accent_rest_decode
      IS_CONTINUATION_BYTE_def)

lemma accent_process_split:
  "process_line accent_env [] f (replicate 8179 32 @ line_no_user) scan_init
     = Inr \<lparr>priority_data = [], other_data = [make_review_data (recent_review []) 1700000000000 f],
            file_users = [], rows_read = 1, lines_processed = 1\<rparr>"
proof -
  have "strip_truthy (replicate 8179 32 @ line_no_user)"
    by (simp add: strip_truthy_def line_no_user_def str_def py_isspace_def)
  moreover have "strip_spaces (replicate 8179 32 @ line_no_user) = line_no_user"
    by (simp add: strip_spaces_def line_no_user_def str_def dropWhile_append)
  moreover have "line_no_user \<noteq> line_accent"
    by (simp add: line_no_user_def line_accent_def str_def)
  ultimately show ?thesis
    by (simp add: process_line_def accent_env_def demo_env_def accent_loads_def recent_review_def
        accept_def scan_init_def)
qed

lemma accent_process_aligned:
  "process_line accent_env [] f (replicate 8179 32 @ line_accent) scan_init
     = Inr \<lparr>priority_data = [],
            other_data = [make_review_data (recent_review [233]) 1700000000000 f],
            file_users = [], rows_read = 1, lines_processed = 1\<rparr>"
proof -
  have "strip_truthy (replicate 8179 32 @ line_accent)"
    by (simp add: strip_truthy_def line_accent_def str_def py_isspace_def)
  moreover have "strip_spaces (replicate 8179 32 @ line_accent) = line_accent"
    by (simp add: strip_spaces_def line_accent_def str_def dropWhile_append)
  ultimately show ?thesis
    by (simp add: process_line_def accent_env_def demo_env_def accent_loads_def recent_review_def
        accept_def scan_init_def)
qed

text \<open>
  C8, on the code. By \<open>scan_category_decoded_text\<close> the chunks matter only through the
  text they decode to; but each chunk is decoded on its own, with errors ignored, and
  the two halves of a character cut by a chunk boundary are both dropped. The two lists
  of chunks below are the same stream. Read in chunks of 8192 bytes, the record is kept
  with an empty user identifier; cut one byte earlier, it is kept with the user
  identifier of the stream.
\<close>

theorem character_split_across_chunks_lost:
  "concat accent_reads = concat accent_reads_aligned
   \<and> length (hd accent_reads) = 8192
   \<and> sample_category accent_env [] (str ''Books.jsonl'') accent_reads
       = Inr ([make_review_data (recent_review []) 1700000000000 (str ''Books.jsonl'')], [Some []])
   \<and> sample_category accent_env [] (str ''Books.jsonl'') accent_reads_aligned
       = Inr ([make_review_data (recent_review [233]) 1700000000000 (str ''Books.jsonl'')],
              [Some [233]])"
proof -
  have lt: "rows_read scan_init < MAX_ROWS_TO_READ accent_env"
    by (simp add: scan_init_def accent_env_def demo_env_def)
  have nl_head: \<open>newline \<notin> set (replicate 8179 32 @ str ''{"user_id":"'')\<close>
    by (simp add: str_def newline_def)
  have split_line: \<open>(replicate 8179 32 @ str ''{"user_id":"'')
                       @ str ''","timestamp":1700000000000}'' @ [newline]
                     = (replicate 8179 32 @ line_no_user) @ [newline]\<close>
    by (simp add: line_no_user_def str_def)
  have aligned_line: \<open>(replicate 8179 32 @ str ''{"user_id":"'')
                       @ 233 # str ''","timestamp":1700000000000}'' @ [newline]
                     = (replicate 8179 32 @ line_accent) @ [newline]\<close>
    by (simp add: line_accent_def str_def)
  have nl1: "newline \<notin> set (replicate 8179 32 @ line_no_user)"
    by (simp add: line_no_user_def str_def newline_def)
  have nl2: "newline \<notin> set (replicate 8179 32 @ line_accent)"
    by (simp add: line_accent_def str_def newline_def)
  have ne: "accent_head @ [0xC3] \<noteq> []" "0xA9 # accent_rest \<noteq> []" "accent_head \<noteq> []"
    by (simp_all add: accent_head_def encode_ascii_def)
  have w1: "while_lines accent_env [] (str ''Books.jsonl'') (utf8_decode (accent_head @ [0xC3]))
              scan_init
            = Inr (utf8_decode (accent_head @ [0xC3]), scan_init)"
    unfolding accent_decode_split using nl_head by (rule while_lines_no_newline)
  have w2: "while_lines accent_env [] (str ''Books.jsonl'')
              (utf8_decode (accent_head @ [0xC3]) @ utf8_decode (0xA9 # accent_rest)) scan_init
            = Inr ([], \<lparr>priority_data = [],
                 other_data = [make_review_data (recent_review []) 1700000000000
                                 (str ''Books.jsonl'')],
                 file_users = [], rows_read = 1, lines_processed = 1\<rparr>)"
    unfolding accent_decode_split split_line while_lines_one_line [OF nl1 lt]
      accent_process_split
    by simp
  have scan1: "scan_category accent_env [] (str ''Books.jsonl'') accent_reads
                 = Inr ([], \<lparr>priority_data = [],
                      other_data = [make_review_data (recent_review []) 1700000000000
                                      (str ''Books.jsonl'')],
                      file_users = [], rows_read = 1, lines_processed = 1\<rparr>)"
    using lt ne
    by (simp add: scan_category_def accent_reads_def iter_sentinel_def w1 w2
        del: utf8_decode.simps)
  have w3: "while_lines accent_env [] (str ''Books.jsonl'') (utf8_decode accent_head) scan_init
            = Inr (utf8_decode accent_head, scan_init)"
    unfolding accent_decode_aligned using nl_head by (rule while_lines_no_newline)
  have w4: "while_lines accent_env [] (str ''Books.jsonl'')
              (utf8_decode accent_head @ utf8_decode (0xC3 # 0xA9 # accent_rest)) scan_init
            = Inr ([], \<lparr>priority_data = [],
                 other_data = [make_review_data (recent_review [233]) 1700000000000
                                 (str ''Books.jsonl'')],
                 file_users = [], rows_read = 1, lines_processed = 1\<rparr>)"
    unfolding accent_decode_aligned aligned_line while_lines_one_line [OF nl2 lt]
      accent_process_aligned
    by simp
  have scan2: "scan_category accent_env [] (str ''Books.jsonl'') accent_reads_aligned
                 = Inr ([], \<lparr>priority_data = [],
                      other_data = [make_review_data (recent_review [233]) 1700000000000
                                      (str ''Books.jsonl'')],
                      file_users = [], rows_read = 1, lines_processed = 1\<rparr>)"
    using lt ne
    by (simp add: scan_category_def accent_reads_aligned_def iter_sentinel_def w3 w4
        del: utf8_decode.simps)
  have cap: "MAX_REVIEWS accent_env = 50000"
    by (simp add: accent_env_def demo_env_def)
  have len: "length (hd accent_reads) = 8192"
    by (simp add: accent_reads_def accent_head_def encode_ascii_def str_def)
  have s1: "sample_category accent_env [] (str ''Books.jsonl'') accent_reads
       = Inr ([make_review_data (recent_review []) 1700000000000 (str ''Books.jsonl'')], [Some []])"
    by (simp add: sample_category_def scan1 finalize_def cap set_add_def make_review_data_def
        recent_review_def)
  have s2: "sample_category accent_env [] (str ''Books.jsonl'') accent_reads_aligned
       = Inr ([make_review_data (recent_review [233]) 1700000000000 (str ''Books.jsonl'')],
              [Some [233]])"
    by (simp add: sample_category_def scan2 finalize_def cap set_add_def make_review_data_def
        recent_review_def)
  from accent_same_stream len s1 s2 show ?thesis
    by (intro conjI)
qed

subsection \<open>Classification against the ledger\<close>

lemma process_line_filter:
  assumes "process_line e G f line s = Inr s'"
  shows "case spec_filter_mapper e f line of
           None \<Rightarrow>
             priority_data s' = priority_data s \<and> other_data s' = other_data s
             \<and> rows_read s' = rows_read s
         | Some r \<Rightarrow>
             priority_data s' = priority_data s @ filter (\<lambda>r. rd_user_id r \<in> set G) [r]
             \<and> other_data s' = other_data s @ filter (\<lambda>r. rd_user_id r \<notin> set G) [r]
             \<and> rows_read s' = rows_read s + 1"
  using assms
  by (auto simp: process_line_def spec_filter_mapper_def accept_def make_review_data_def
      split: if_splits loads_result.splits timestamp_field.splits)

lemma complete_lines_no_newline: "newline \<notin> set buf \<Longrightarrow> complete_lines buf = []"
  by (simp add: complete_lines.simps [of buf])

lemma complete_lines_step:
  "newline \<in> set buf \<Longrightarrow>
     complete_lines buf
       = takeWhile (\<lambda>c. c \<noteq> newline) buf
         # complete_lines (tl (dropWhile (\<lambda>c. c \<noteq> newline) buf))"
  by (simp add: complete_lines.simps [of buf])

lemma while_lines_candidates:
  assumes "while_lines e G f buf s = Inr (b', s')"
  shows "priority_data s'
           = priority_data s
             @ filter (\<lambda>r. rd_user_id r \<in> set G)
                 (take (MAX_ROWS_TO_READ e - rows_read s)
                    (List.map_filter (spec_filter_mapper e f) (complete_lines buf)))
         \<and> other_data s'
             = other_data s
               @ filter (\<lambda>r. rd_user_id r \<notin> set G)
                   (take (MAX_ROWS_TO_READ e - rows_read s)
                      (List.map_filter (spec_filter_mapper e f) (complete_lines buf)))"
  using assms
proof (induction e G f buf s rule: while_lines.induct)
  case (1 e G f buffer s)
  show ?case
  proof (cases "newline \<in> set buffer \<and> rows_read s < MAX_ROWS_TO_READ e")
    case False
    then have c: "(newline \<in> set buffer \<and> rows_read s < MAX_ROWS_TO_READ e) = False"
      by simp
    from "1.prems" have "s' = s"
      by (simp add: while_lines.simps [of e G f buffer s] c)
    moreover from False
    have "take (MAX_ROWS_TO_READ e - rows_read s)
            (List.map_filter (spec_filter_mapper e f) (complete_lines buffer)) = []"
      by (auto simp: complete_lines_no_newline map_filter_simps)
    ultimately show ?thesis
      by (simp del: take_eq_Nil take_eq_Nil2)
  next
    case True
    let ?line = "takeWhile (\<lambda>c. c \<noteq> newline) buffer"
    let ?rest = "tl (dropWhile (\<lambda>c. c \<noteq> newline) buffer)"
    have lines: "complete_lines buffer = ?line # complete_lines ?rest"
      using True by (simp add: complete_lines_step)
    show ?thesis
    proof (cases "process_line e G f ?line s")
      case (Inl err)
      with True "1.prems" show ?thesis
        by (simp add: while_lines.simps [of e G f buffer s])
    next
      case (Inr s1)
      from True Inr "1.prems"
      have "while_lines e G f ?rest s1 = Inr (b', s')"
        by (simp add: while_lines.simps [of e G f buffer s])
      from "1.IH" [OF True Inr this]
      have ih: "priority_data s'
                  = priority_data s1
                    @ filter (\<lambda>r. rd_user_id r \<in> set G)
                        (take (MAX_ROWS_TO_READ e - rows_read s1)
                           (List.map_filter (spec_filter_mapper e f) (complete_lines ?rest)))"
        "other_data s'
           = other_data s1
             @ filter (\<lambda>r. rd_user_id r \<notin> set G)
                 (take (MAX_ROWS_TO_READ e - rows_read s1)
                    (List.map_filter (spec_filter_mapper e f) (complete_lines ?rest)))"
        by simp_all
      show ?thesis
      proof (cases "spec_filter_mapper e f ?line")
        case None
        with process_line_filter [OF Inr]
        have "priority_data s1 = priority_data s" "other_data s1 = other_data s"
          "rows_read s1 = rows_read s"
          by simp_all
        with ih None lines show ?thesis
          by (simp add: map_filter_simps)
      next
        case (Some r)
        with process_line_filter [OF Inr]
        have p: "priority_data s1
                   = priority_data s @ filter (\<lambda>r. rd_user_id r \<in> set G) [r]"
          and o: "other_data s1 = other_data s @ filter (\<lambda>r. rd_user_id r \<notin> set G) [r]"
          and n: "rows_read s1 = rows_read s + 1"
          by simp_all
        from True n
        have "MAX_ROWS_TO_READ e - rows_read s = Suc (MAX_ROWS_TO_READ e - rows_read s1)"
          by arith
        with ih p o Some lines show ?thesis
          by (simp add: map_filter_simps)
      qed
    qed
  qed
qed

text \<open>
  C4. The candidates of a category are what the filter of section 4.2 emits on the
  complete lines of the decoded text, in arrival order, up to the scan budget; they do
  not depend on the ledger. In a scan that ends without an exception, with the ledger
  that the category starts with, the priority records are exactly the candidates whose
  user identifier is in that ledger, and the other records are exactly the candidates
  whose user identifier is not, both in arrival order. The ledger is a parameter of the
  scan, fixed while it runs: user identifiers seen during the scan do not enter the
  classification of any record, earlier or later.
\<close>

theorem classification_of_candidates:
  assumes "scan_category e ledger filename reads = Inr (buffer, s)"
  shows "priority_data s
           = filter (\<lambda>r. rd_user_id r \<in> set ledger) (spec_candidates e filename reads)
         \<and> other_data s
             = filter (\<lambda>r. rd_user_id r \<notin> set ledger) (spec_candidates e filename reads)"
proof -
  from scan_category_decoded_text [of e ledger filename reads] assms
  obtain b where "while_lines e ledger filename
                    (concat (map utf8_decode (iter_sentinel reads))) scan_init = Inr (b, s)"
    by (cases "while_lines e ledger filename
                 (concat (map utf8_decode (iter_sentinel reads))) scan_init") auto
  from while_lines_candidates [OF this] show ?thesis
    by (simp add: spec_candidates_def scan_init_def)
qed

lemma demo_spec_candidates:
  "spec_candidates demo_env (str ''Books.jsonl'') demo_reads = demo_kept"
  by (simp add: spec_candidates_def spec_filter_mapper_def iter_sentinel_def map_filter_simps
      complete_lines.simps demo_defs strip_truthy_def py_isspace_def IS_CONTINUATION_BYTE_def
      make_review_data_def)

theorem classification_of_candidates_witness:
  "scan_category demo_env [Some (str ''U1'')] (str ''Books.jsonl'') demo_reads
     = Inr ([], demo_scan)
   \<and> spec_candidates demo_env (str ''Books.jsonl'') demo_reads = demo_kept
   \<and> priority_data demo_scan
       = filter (\<lambda>r. rd_user_id r \<in> set [Some (str ''U1'')]) demo_kept
   \<and> other_data demo_scan
       = filter (\<lambda>r. rd_user_id r \<notin> set [Some (str ''U1'')]) demo_kept
   \<and> priority_data demo_scan = [hd demo_kept]
   \<and> other_data demo_scan = tl demo_kept"
  using classification_of_candidates [OF demo_scan_category] demo_scan_category
    demo_spec_candidates
  by (simp add: demo_scan_def demo_kept_def)

end
